theory Spec2Isabelle
  imports Main "HOL-Library.AList"
begin

section \<open>Job records and the append-only job log (src/index.ts)\<close>

text \<open>
  \<^verbatim>\<open>type JobState\<close> and \<^verbatim>\<open>type JobRecord\<close> of src/index.ts. Optional fields
  (\<^verbatim>\<open>title?\<close>, \<^verbatim>\<open>owner?\<close>, \<^verbatim>\<open>progress?\<close>, \<^verbatim>\<open>detail?\<close>) are options; timestamps
  are the integer milliseconds of \<^verbatim>\<open>Date.now()\<close>. \<^verbatim>\<open>progress\<close> is only copied by the
  code, never computed with; it is an integer here.
\<close>

datatype JobState = registered | running | waiting | blocked | completed | failed

record JobRecord =
  jobId :: string
  title :: "string option"
  owner :: "string option"
  state :: JobState
  progress :: "int option"
  detail :: "string option"
  createdAt :: int
  updatedAt :: int
  lastActivityAt :: int

text \<open>
  \<^verbatim>\<open>Partial<JobRecord> & { jobId: string }\<close>, the argument of \<^verbatim>\<open>upsertJob\<close>: every
  field but \<^verbatim>\<open>jobId\<close> may be absent.
\<close>

record JobPatch =
  p_jobId :: string
  p_title :: "string option"
  p_owner :: "string option"
  p_state :: "JobState option"
  p_progress :: "int option"
  p_detail :: "string option"
  p_createdAt :: "int option"
  p_updatedAt :: "int option"
  p_lastActivityAt :: "int option"

text \<open>
  The file \<^verbatim>\<open>jobs.jsonl\<close>. The code reads it as text, splits it at newlines, trims each
  line and drops the empty ones, and hands the rest to \<^verbatim>\<open>JSON.parse\<close>. A line is
  represented by what these steps make of it: \<open>Blank\<close> (empty after \<^verbatim>\<open>trim\<close>),
  \<open>Malformed\<close> (\<^verbatim>\<open>JSON.parse\<close> throws) or \<open>WellFormed v\<close> for the parsed value \<open>v\<close>.
  A parsed value either carries a \<^verbatim>\<open>jobId\<close> property and the other fields of a
  \<^verbatim>\<open>JobRecord\<close> (\<open>JRecord\<close>) or has no \<^verbatim>\<open>jobId\<close> property at all (\<open>JOther\<close>:
  \<^verbatim>\<open>null\<close>, a number, an array, an object without the key).
  \<^verbatim>\<open>JSON.stringify\<close> followed by \<^verbatim>\<open>JSON.parse\<close> is taken to give the record back, and
  the file is taken to end with a newline whenever it is appended to (every append of
  the code ends its line). A file that does not exist is \<open>None\<close>.
\<close>

datatype json = JOther | JRecord JobRecord

datatype line = Blank | Malformed | WellFormed json

type_synonym jobsFile = "line list option"

text \<open>\<^verbatim>\<open>safeJsonParse\<close>: the parsed value, or \<^verbatim>\<open>null\<close> when \<^verbatim>\<open>JSON.parse\<close> throws.\<close>

fun safeJsonParse :: "line \<Rightarrow> json option" where
  "safeJsonParse (WellFormed v) = Some v"
| "safeJsonParse Malformed = None"
| "safeJsonParse Blank = None"

text \<open>\<^verbatim>\<open>.map((l) => l.trim()).filter(Boolean)\<close>: blank lines are dropped before parsing.\<close>

fun nonblank :: "line \<Rightarrow> bool" where
  "nonblank Blank = False"
| "nonblank _ = True"

text \<open>
  The loop \<^verbatim>\<open>const j = safeJsonParse(l); if (j?.jobId) jobs.push(j)\<close>: a line is kept
  when it parses and its \<^verbatim>\<open>jobId\<close> is truthy, that is, present and not the empty string.
\<close>

fun parsedJob :: "line \<Rightarrow> JobRecord option" where
  "parsedJob l =
     (case safeJsonParse l of
        None \<Rightarrow> None
      | Some JOther \<Rightarrow> None
      | Some (JRecord j) \<Rightarrow> if jobId j \<noteq> [] then Some j else None)"

text \<open>
  \<^verbatim>\<open>for (const j of jobs) map.set(j.jobId, j)\<close>: a JavaScript \<^verbatim>\<open>Map\<close> keeps the position
  of a key's first insertion and replaces its value on a later \<^verbatim>\<open>set\<close>, which is what
  \<open>AList.update\<close> does on an association list.
\<close>

definition latestPerJobId :: "JobRecord list \<Rightarrow> (string \<times> JobRecord) list" where
  "latestPerJobId jobs = foldl (\<lambda>m j. AList.update (jobId j) j m) [] jobs"

text \<open>
  \<^verbatim>\<open>readJobs\<close>: the latest record per \<^verbatim>\<open>jobId\<close>, sorted by \<^verbatim>\<open>createdAt\<close> (the sort of
  \<^verbatim>\<open>Array.prototype.sort\<close> is stable, as \<open>sort_key\<close> is).
\<close>

definition readJobs :: "jobsFile \<Rightarrow> JobRecord list" where
  "readJobs file =
     (case file of
        None \<Rightarrow> []
      | Some ls \<Rightarrow>
          let jobs = List.map_filter parsedJob (filter nonblank ls)
          in sort_key createdAt (map snd (latestPerJobId jobs)))"

text \<open>\<^verbatim>\<open>fs.appendFileSync(jobsPath, JSON.stringify(next) + "\n")\<close>; creates the file.\<close>

definition appendJob :: "JobRecord \<Rightarrow> jobsFile \<Rightarrow> jobsFile" where
  "appendJob r file =
     (case file of
        None \<Rightarrow> Some [WellFormed (JRecord r)]
      | Some ls \<Rightarrow> Some (ls @ [WellFormed (JRecord r)]))"

text \<open>
  \<^verbatim>\<open>upsertJob\<close>. \<open>t\<close> is the reading of \<^verbatim>\<open>now()\<close>: the code reads the clock several
  times during one synchronous call, the model supplies one reading for the call.
  \<^verbatim>\<open>{ ...base, ...patch, updatedAt: now(), lastActivityAt: now() }\<close>: a field present in
  the patch wins over the one of \<open>base\<close>, and the two stamps win over both.
\<close>

definition baseRecord :: "int \<Rightarrow> JobPatch \<Rightarrow> JobRecord list \<Rightarrow> JobRecord" where
  "baseRecord t patch jobs =
     (case find (\<lambda>j. jobId j = p_jobId patch) jobs of
        Some prev \<Rightarrow> prev
      | None \<Rightarrow>
          \<lparr> jobId = p_jobId patch, title = None, owner = None, state = registered,
            progress = None, detail = None,
            createdAt = t, updatedAt = t, lastActivityAt = t \<rparr>)"

definition mergePatch :: "int \<Rightarrow> JobRecord \<Rightarrow> JobPatch \<Rightarrow> JobRecord" where
  "mergePatch t base patch =
     \<lparr> jobId = p_jobId patch,
       title = (case p_title patch of Some x \<Rightarrow> Some x | None \<Rightarrow> title base),
       owner = (case p_owner patch of Some x \<Rightarrow> Some x | None \<Rightarrow> owner base),
       state = (case p_state patch of Some x \<Rightarrow> x | None \<Rightarrow> state base),
       progress = (case p_progress patch of Some x \<Rightarrow> Some x | None \<Rightarrow> progress base),
       detail = (case p_detail patch of Some x \<Rightarrow> Some x | None \<Rightarrow> detail base),
       createdAt = (case p_createdAt patch of Some x \<Rightarrow> x | None \<Rightarrow> createdAt base),
       updatedAt = t,
       lastActivityAt = t \<rparr>"

definition upsertJob :: "int \<Rightarrow> JobPatch \<Rightarrow> jobsFile \<Rightarrow> JobRecord \<times> jobsFile" where
  "upsertJob t patch file =
     (let jobs = readJobs file;
          base = baseRecord t patch jobs;
          next = mergePatch t base patch
      in (next, appendJob next file))"

text \<open>
  The current record of a \<^verbatim>\<open>jobId\<close>, as \<^verbatim>\<open>upsertJob\<close> and the tools look it up:
  \<^verbatim>\<open>readJobs().find((j) => j.jobId === k)\<close>.
\<close>

definition currentJob :: "string \<Rightarrow> jobsFile \<Rightarrow> JobRecord option" where
  "currentJob k file = find (\<lambda>j. jobId j = k) (readJobs file)"

text \<open>A sequence of \<^verbatim>\<open>upsertJob\<close> calls, each with its clock reading.\<close>

fun upsertAll :: "(int \<times> JobPatch) list \<Rightarrow> jobsFile \<Rightarrow> jobsFile" where
  "upsertAll [] file = file"
| "upsertAll ((t, patch) # calls) file = upsertAll calls (snd (upsertJob t patch file))"

text \<open>The lines of a file that \<^verbatim>\<open>readJobs\<close> keeps, as records, in file order.\<close>

definition keptJobs :: "line list \<Rightarrow> JobRecord list" where
  "keptJobs ls = List.map_filter parsedJob (filter nonblank ls)"

section \<open>Plugin state and configuration\<close>

text \<open>
  The object \<^verbatim>\<open>state\<close> of \<^verbatim>\<open>register\<close>. \<^verbatim>\<open>counters\<close> is
  \<^verbatim>\<open>Record<string, Record<string, number>>\<close>, scope to agent to count: the inner object
  is an association list in insertion order, and a scope without an entry reads as the
  empty object (the code creates it with \<^verbatim>\<open>??= {}\<close> before any use).
\<close>

datatype Scope = flock | gateway

record Observe =
  logPath :: string
  pos :: int
  lastSize :: int
  lastEscalateAt :: int
  lastEscalateReason :: string
  counters :: "Scope \<Rightarrow> (string \<times> int) list"

record Escalation =
  pending :: bool
  forcedMention :: string
  reason :: string
  setAt :: int

record ObserveLast =
  escalated :: bool
  ol_forcedMention :: string
  ol_reason :: string

record PluginState =
  lastBriefAt :: int
  lastNoMsgEscalationAt :: int
  lastBriefContent :: string
  observe :: Observe
  observeEscalation :: Escalation
  observeLast :: ObserveLast

definition initialState :: PluginState where
  "initialState =
     \<lparr> lastBriefAt = 0, lastNoMsgEscalationAt = 0, lastBriefContent = [],
       observe = \<lparr> logPath = [], pos = 0, lastSize = 0, lastEscalateAt = 0,
                   lastEscalateReason = [], counters = (\<lambda>_. []) \<rparr>,
       observeEscalation = \<lparr> pending = False, forcedMention = [], reason = [], setAt = 0 \<rparr>,
       observeLast = \<lparr> escalated = False, ol_forcedMention = [], ol_reason = [] \<rparr> \<rparr>"

text \<open>
  What the plugin owns on disk and in memory: the state object, \<^verbatim>\<open>jobs.jsonl\<close> and
  \<^verbatim>\<open>state.json\<close> (the last snapshot written by \<^verbatim>\<open>saveState\<close>, if any). File
  operations are taken to succeed.
\<close>

record World =
  st :: PluginState
  jobsLog :: jobsFile
  stateFile :: "PluginState option"

definition saveState :: "World \<Rightarrow> World" where
  "saveState w = w\<lparr> stateFile := Some (st w) \<rparr>"

text \<open>\<^verbatim>\<open>upsertJob\<close> on the world; the returned record is dropped by these callers.\<close>

definition upsertW :: "int \<Rightarrow> JobPatch \<Rightarrow> World \<Rightarrow> World" where
  "upsertW t patch w = w\<lparr> jobsLog := snd (upsertJob t patch (jobsLog w)) \<rparr>"

text \<open>
  \<^verbatim>\<open>cfg.observe\<close>. A field read with \<^verbatim>\<open>??\<close> is an option and the default is applied
  where the code applies it; a flag tested with \<^verbatim>\<open>=== true\<close> is a bool. The configured
  \<^verbatim>\<open>includeRegexes\<close> and \<^verbatim>\<open>excludeRegexes\<close> are given compiled: one test function
  (\<^verbatim>\<open>RegExp.prototype.test\<close>) per valid pattern, the invalid ones dropped as
  \<^verbatim>\<open>compileRegexes\<close> drops them.
\<close>

record EscalateCfg =
  e_enabled :: bool
  e_threshold :: "int option"
  e_cooldownMs :: "int option"
  e_mention :: "string option"

record PerAgentCfg =
  pa_enabled :: bool
  pa_minCount :: "int option"

record ObserveCfg =
  o_enabled :: bool
  o_scope :: "Scope option"
  o_maxBytesPerTick :: "int option"
  o_includeRegexes :: "(string \<Rightarrow> bool) list"
  o_excludeRegexes :: "(string \<Rightarrow> bool) list"
  o_perAgentJobs :: PerAgentCfg
  o_escalate :: EscalateCfg

text \<open>
  The regular expressions written in \<^verbatim>\<open>observeFromGatewayLogs\<close>, each given by what the
  code uses of it: the test function, or the first capture group of a match. The results
  below hold for every such function.
  \<^item> \<open>defaultIncludeGateway\<close>: the nine tests of the list of that name;
  \<^item> \<open>rxAgentResponded\<close>: \<^verbatim>\<open>/Agent\s+(?:\\"|")([^\\\"]+)(?:\\"|")\s+responded:/\<close>;
  \<^item> \<open>rxForAgentAt\<close>: \<^verbatim>\<open>/\bfor\s+([a-zA-Z0-9_-]+)@/\<close>;
  \<^item> \<open>rxSessionAgent\<close>: \<^verbatim>\<open>/session:agent:([a-zA-Z0-9_-]+)/\<close>;
  \<^item> \<open>rxHttp405\<close>, \<open>rxHttp429\<close>, \<open>rxHttp5xx\<close>, \<open>rxGatewayHttp5xx\<close>:
    \<^verbatim>\<open>/\bHTTP\s+405\b/\<close>, \<^verbatim>\<open>/\bHTTP\s+429\b/\<close>, \<^verbatim>\<open>/\bHTTP\s+5\d\d\b/\<close>,
    \<^verbatim>\<open>/\bGateway HTTP\s+5\d\d\b/\<close>.
\<close>

record Patterns =
  defaultIncludeGateway :: "(string \<Rightarrow> bool) list"
  rxAgentResponded :: "string \<Rightarrow> string option"
  rxForAgentAt :: "string \<Rightarrow> string option"
  rxSessionAgent :: "string \<Rightarrow> string option"
  rxHttp405 :: "string \<Rightarrow> bool"
  rxHttp429 :: "string \<Rightarrow> bool"
  rxHttp5xx :: "string \<Rightarrow> bool"
  rxGatewayHttp5xx :: "string \<Rightarrow> bool"

text \<open>
  What a tick finds outside the plugin: the clock, the resolved log path
  (\<^verbatim>\<open>cfg.observe?.logPath ?? todayLogPath()\<close>) and the bytes of the file at that path,
  \<open>None\<close> when \<^verbatim>\<open>fs.existsSync\<close> is false. Text is a list of bytes:
  \<^verbatim>\<open>buf.toString("utf8")\<close> is the identity on the ASCII logs considered here.
\<close>

record TickEnv =
  now :: int
  envLogPath :: string
  envLogFile :: "string option"

section \<open>Strings\<close>

text \<open>\<^verbatim>\<open>String.prototype.includes\<close>.\<close>

fun str_includes :: "string \<Rightarrow> string \<Rightarrow> bool" where
  "str_includes [] sub = (sub = [])"
| "str_includes (c # cs) sub = (take (length sub) (c # cs) = sub \<or> str_includes cs sub)"

text \<open>Decimal rendering of an integer in a template literal.\<close>

definition digitChar :: "nat \<Rightarrow> char" where
  "digitChar d = ''0123456789'' ! d"

fun showNat :: "nat \<Rightarrow> string" where
  "showNat n =
     (if n < 10 then [digitChar n]
      else showNat (n div 10) @ [digitChar (n mod 10)])"

declare showNat.simps [simp del]

definition showInt :: "int \<Rightarrow> string" where
  "showInt i = (if i < 0 then CHR ''-'' # showNat (nat (- i)) else showNat (nat i))"

text \<open>\<^verbatim>\<open>Array.prototype.join\<close>.\<close>

fun join :: "string \<Rightarrow> string list \<Rightarrow> string" where
  "join sep [] = []"
| "join sep [x] = x"
| "join sep (x # y # ys) = x @ sep @ join sep (y # ys)"

text \<open>
  \<^verbatim>\<open>text.split(/\r?\n/).filter(Boolean)\<close>: the text is cut at every line feed, a
  carriage return right before the line feed belongs to the separator, and empty pieces
  are dropped.
\<close>

fun splitLf :: "string \<Rightarrow> string list" where
  "splitLf [] = [[]]"
| "splitLf (c # cs) =
     (if c = CHR 0x0A then [] # splitLf cs
      else (case splitLf cs of [] \<Rightarrow> [[c]] | l # ls \<Rightarrow> (c # l) # ls))"

definition stripCr :: "string \<Rightarrow> string" where
  "stripCr l = (if l \<noteq> [] \<and> last l = CHR 0x0D then butlast l else l)"

definition splitLines :: "string \<Rightarrow> string list" where
  "splitLines text =
     (let pieces = splitLf text
      in filter (\<lambda>l. l \<noteq> []) (map stripCr (butlast pieces) @ [last pieces]))"

section \<open>The log tailer (first part of observeFromGatewayLogs)\<close>

text \<open>
  Lines 454 to 476. \<open>resetCursor\<close> is the rotation test and the jump of the cursor;
  \<open>bytesToRead\<close> and \<open>readStart\<close> are the constants of those names, computed from the
  cursor after the reset. \<^verbatim>\<open>state.observe.pos ?? 0\<close> is \<open>pos\<close> (the field is a number).
\<close>

definition resetCursor :: "string \<Rightarrow> int \<Rightarrow> int \<Rightarrow> Observe \<Rightarrow> Observe" where
  "resetCursor path sz maxBytes ob =
     (if logPath ob \<noteq> path \<or> sz < pos ob
      then ob\<lparr> logPath := path, pos := max 0 (sz - maxBytes) \<rparr>
      else ob)"

definition bytesToRead :: "int \<Rightarrow> int \<Rightarrow> Observe \<Rightarrow> int" where
  "bytesToRead sz maxBytes ob =
     (let start = max 0 (pos ob); endPos = sz
      in min maxBytes (max 0 (endPos - start)))"

definition readStart :: "int \<Rightarrow> int \<Rightarrow> Observe \<Rightarrow> int" where
  "readStart sz maxBytes ob = max 0 (sz - bytesToRead sz maxBytes ob)"

text \<open>
  \<^verbatim>\<open>fs.readSync(fd, buf, 0, bytesToRead, readStart)\<close> into a zero-filled buffer of
  \<open>n\<close> bytes: the bytes of the file from \<open>start\<close> on, at most \<open>n\<close> of them, and zero
  bytes for what the file does not have.
\<close>

definition readBytes :: "string \<Rightarrow> int \<Rightarrow> int \<Rightarrow> string" where
  "readBytes content start n =
     (let got = take (nat n) (drop (nat start) content)
      in got @ replicate (nat n - length got) (CHR 0x00))"

text \<open>
  One poll of the tailer on an existing file: the cursor after it, and the text read.
  \<^verbatim>\<open>Buffer.alloc\<close> throws on a negative size; the exception leaves the function
  through its \<^verbatim>\<open>catch\<close> after the cursor reset and before \<^verbatim>\<open>pos\<close> is advanced, which
  is the result \<open>Inl\<close> with the state at that point.
\<close>

definition pollOnce :: "string \<Rightarrow> string \<Rightarrow> int \<Rightarrow> Observe \<Rightarrow> Observe + (Observe \<times> string)" where
  "pollOnce path content maxBytes ob0 =
     (let sz = int (length content);
          ob1 = resetCursor path sz maxBytes ob0;
          n = bytesToRead sz maxBytes ob1;
          rs = readStart sz maxBytes ob1
      in if n < 0 then Inl ob1
         else Inr (ob1\<lparr> pos := sz, lastSize := sz \<rparr>, readBytes content rs n))"

section \<open>The health signal detector\<close>

record Tally =
  count401 :: int
  count405 :: int
  count429 :: int
  count5xx :: int
  countExecutorFailed :: int
  countExecFailed :: int
  countPluginLoadFailed :: int
  agents401 :: "(string \<times> int) list"
  agentsExecutorFailed :: "(string \<times> int) list"
  agents405 :: "(string \<times> int) list"
  agents429 :: "(string \<times> int) list"
  agents5xx :: "(string \<times> int) list"

definition emptyTally :: Tally where
  "emptyTally =
     \<lparr> count401 = 0, count405 = 0, count429 = 0, count5xx = 0, countExecutorFailed = 0,
       countExecFailed = 0, countPluginLoadFailed = 0,
       agents401 = [], agentsExecutorFailed = [], agents405 = [], agents429 = [],
       agents5xx = [] \<rparr>"

text \<open>\<^verbatim>\<open>m.get(k) ?? 0\<close> and \<^verbatim>\<open>bump\<close> on a \<^verbatim>\<open>Map<string, number>\<close>.\<close>

definition getOr0 :: "(string \<times> int) list \<Rightarrow> string \<Rightarrow> int" where
  "getOr0 m k = (case map_of m k of Some v \<Rightarrow> v | None \<Rightarrow> 0)"

definition bump :: "(string \<times> int) list \<Rightarrow> string \<Rightarrow> (string \<times> int) list" where
  "bump m k = AList.update k (getOr0 m k + 1) m"

definition matches :: "ObserveCfg \<Rightarrow> Patterns \<Rightarrow> Scope \<Rightarrow> string \<Rightarrow> bool" where
  "matches oc pats scope ln =
     (if list_ex (\<lambda>r. r ln) (o_excludeRegexes oc) then False
      else if o_includeRegexes oc \<noteq> [] then list_ex (\<lambda>r. r ln) (o_includeRegexes oc)
      else if scope = flock then str_includes ln ''[flock''
      else list_ex (\<lambda>r. r ln) (defaultIncludeGateway pats))"

text \<open>\<^verbatim>\<open>extractAgent\<close>: the first pattern with a non-empty capture wins, else \<^verbatim>\<open>""\<close>.\<close>

definition truthyCapture :: "string option \<Rightarrow> bool" where
  "truthyCapture m = (case m of Some a \<Rightarrow> a \<noteq> [] | None \<Rightarrow> False)"

definition extractAgent :: "Patterns \<Rightarrow> string \<Rightarrow> string" where
  "extractAgent pats ln =
     (if truthyCapture (rxAgentResponded pats ln) then the (rxAgentResponded pats ln)
      else if truthyCapture (rxForAgentAt pats ln) then the (rxForAgentAt pats ln)
      else if truthyCapture (rxSessionAgent pats ln) then the (rxSessionAgent pats ln)
      else [])"

text \<open>
  The body of \<^verbatim>\<open>for (const l of lines)\<close>. Each \<^verbatim>\<open>if (isX) { countX++; if (agent)
  bump(agentsX, agent); }\<close> is one function below, applied in the order of the code.
\<close>

definition tally401 :: "bool \<Rightarrow> string \<Rightarrow> Tally \<Rightarrow> Tally" where
  "tally401 is401 agent y =
     (if is401
      then y\<lparr> count401 := count401 y + 1,
              agents401 := (if agent \<noteq> [] then bump (agents401 y) agent else agents401 y) \<rparr>
      else y)"

definition tally405 :: "bool \<Rightarrow> string \<Rightarrow> Tally \<Rightarrow> Tally" where
  "tally405 is405 agent y =
     (if is405
      then y\<lparr> count405 := count405 y + 1,
              agents405 := (if agent \<noteq> [] then bump (agents405 y) agent else agents405 y) \<rparr>
      else y)"

definition tally429 :: "bool \<Rightarrow> string \<Rightarrow> Tally \<Rightarrow> Tally" where
  "tally429 is429 agent y =
     (if is429
      then y\<lparr> count429 := count429 y + 1,
              agents429 := (if agent \<noteq> [] then bump (agents429 y) agent else agents429 y) \<rparr>
      else y)"

definition tally5xx :: "bool \<Rightarrow> string \<Rightarrow> Tally \<Rightarrow> Tally" where
  "tally5xx is5xx agent y =
     (if is5xx
      then y\<lparr> count5xx := count5xx y + 1,
              agents5xx := (if agent \<noteq> [] then bump (agents5xx y) agent else agents5xx y) \<rparr>
      else y)"

definition tallyExecutorFailed :: "bool \<Rightarrow> string \<Rightarrow> Tally \<Rightarrow> Tally" where
  "tallyExecutorFailed isExecFail agent y =
     (if isExecFail
      then y\<lparr> countExecutorFailed := countExecutorFailed y + 1,
              agentsExecutorFailed :=
                (if agent \<noteq> [] then bump (agentsExecutorFailed y) agent
                 else agentsExecutorFailed y) \<rparr>
      else y)"

definition tallyExecFailed :: "bool \<Rightarrow> Tally \<Rightarrow> Tally" where
  "tallyExecFailed isExecToolFail y =
     (if isExecToolFail then y\<lparr> countExecFailed := countExecFailed y + 1 \<rparr> else y)"

definition tallyPluginLoadFailed :: "bool \<Rightarrow> Tally \<Rightarrow> Tally" where
  "tallyPluginLoadFailed isPluginLoadFail y =
     (if isPluginLoadFail then y\<lparr> countPluginLoadFailed := countPluginLoadFailed y + 1 \<rparr>
      else y)"

definition scanLine :: "ObserveCfg \<Rightarrow> Patterns \<Rightarrow> Scope \<Rightarrow> string \<Rightarrow> Tally \<Rightarrow> Tally" where
  "scanLine oc pats scope l y0 =
     (if \<not> matches oc pats scope l then y0
      else
        let agent = extractAgent pats l;
            is401 = (str_includes l ''HTTP 401'' \<or> str_includes l ''authentication_error''
                     \<or> str_includes l ''Invalid bearer token'');
            is405 = (str_includes l ''Gateway HTTP 405'' \<or> rxHttp405 pats l);
            is429 = (rxHttp429 pats l \<or> str_includes l ''rate_limit'');
            is5xx = (rxHttp5xx pats l \<or> rxGatewayHttp5xx pats l);
            isExecFail = (scope = flock \<and> str_includes l ''[flock:executor]''
                          \<and> str_includes l '' failed:'');
            isExecToolFail = (scope = flock
                              \<and> (str_includes l ''Exec failed'' \<or> str_includes l ''ExecFailed''));
            isPluginLoadFail = (scope = flock \<and> str_includes l ''failed to load'')
        in tallyPluginLoadFailed isPluginLoadFail
             (tallyExecFailed isExecToolFail
               (tallyExecutorFailed isExecFail agent
                 (tally5xx is5xx agent
                   (tally429 is429 agent
                     (tally405 is405 agent
                       (tally401 is401 agent y0)))))))"

definition scanLines :: "ObserveCfg \<Rightarrow> Patterns \<Rightarrow> Scope \<Rightarrow> string list \<Rightarrow> Tally" where
  "scanLines oc pats scope lns = fold (scanLine oc pats scope) lns emptyTally"

text \<open>The test of lines 573 to 581: no count of the tick is nonzero.\<close>

definition allZero :: "Tally \<Rightarrow> bool" where
  "allZero y =
     (count401 y = 0 \<and> count405 y = 0 \<and> count429 y = 0 \<and> count5xx y = 0
      \<and> countExecutorFailed y = 0 \<and> countExecFailed y = 0 \<and> countPluginLoadFailed y = 0)"

text \<open>
  \<^verbatim>\<open>fmtMap\<close>: entries by descending count (a stable sort), as \<^verbatim>\<open>k(v)\<close>, joined.
\<close>

definition fmtMap :: "(string \<times> int) list \<Rightarrow> string" where
  "fmtMap m =
     join '', '' (map (\<lambda>(k, v). k @ ''('' @ showInt v @ '')'') (sort_key (\<lambda>(k, v). - v) m))"

definition detailPart :: "string \<Rightarrow> int \<Rightarrow> (string \<times> int) list \<Rightarrow> string list" where
  "detailPart label c m =
     (if c \<noteq> 0
      then [label @ ''='' @ showInt c
            @ (let a = fmtMap m in if a \<noteq> [] then '' ['' @ a @ '']'' else [])]
      else [])"

definition plainPart :: "string \<Rightarrow> int \<Rightarrow> string list" where
  "plainPart label c = (if c \<noteq> 0 then [label @ ''='' @ showInt c] else [])"

definition detailParts :: "Tally \<Rightarrow> string list" where
  "detailParts y =
     detailPart ''401'' (count401 y) (agents401 y)
     @ detailPart ''405'' (count405 y) (agents405 y)
     @ detailPart ''429'' (count429 y) (agents429 y)
     @ detailPart ''5xx'' (count5xx y) (agents5xx y)
     @ detailPart ''executorFailed'' (countExecutorFailed y) (agentsExecutorFailed y)
     @ plainPart ''execFailed'' (countExecFailed y)
     @ plainPart ''pluginLoadFailed'' (countPluginLoadFailed y)"

text \<open>\<^verbatim>\<open>stateStr\<close>, lines 617 to 626.\<close>

definition stateStr :: "Tally \<Rightarrow> JobState" where
  "stateStr y =
     (if count401 y \<noteq> 0 \<or> count405 y \<noteq> 0 \<or> count429 y \<noteq> 0 \<or> count5xx y \<noteq> 0
         \<or> countExecutorFailed y \<noteq> 0 \<or> countExecFailed y \<noteq> 0
         \<or> countPluginLoadFailed y \<noteq> 0
      then blocked else running)"

definition baseJobId :: "Scope \<Rightarrow> string" where
  "baseJobId scope = (if scope = gateway then ''gateway:health'' else ''flock:health'')"

definition baseTitle :: "Scope \<Rightarrow> string" where
  "baseTitle scope =
     (if scope = gateway then ''Gateway health (auto)'' else ''Flock health (auto)'')"

definition scopeName :: "Scope \<Rightarrow> string" where
  "scopeName scope = (if scope = gateway then ''gateway'' else ''flock'')"

definition emptyPatch :: "string \<Rightarrow> JobPatch" where
  "emptyPatch k =
     \<lparr> p_jobId = k, p_title = None, p_owner = None, p_state = None, p_progress = None,
       p_detail = None, p_createdAt = None, p_updatedAt = None, p_lastActivityAt = None \<rparr>"

definition healthPatch :: "string \<Rightarrow> string \<Rightarrow> JobState \<Rightarrow> string \<Rightarrow> JobPatch" where
  "healthPatch k ttl s d =
     (emptyPatch k)\<lparr> p_title := Some ttl, p_owner := Some ''observe'', p_state := Some s,
                     p_detail := Some d \<rparr>"

text \<open>
  \<^verbatim>\<open>new Set([...a.keys(), ...b.keys(), ...])\<close>: the keys in order of first occurrence.
\<close>

definition keySet :: "string list \<Rightarrow> string list" where
  "keySet ks = rev (remdups (rev ks))"

text \<open>The per-agent jobs, lines 629 to 663.\<close>

definition agentJobId :: "Scope \<Rightarrow> string \<Rightarrow> string" where
  "agentJobId scope agent =
     (if scope = gateway then ''gateway:agent'' else ''flock:agent'') @ '':'' @ agent"

definition agentTitle :: "Scope \<Rightarrow> string \<Rightarrow> string" where
  "agentTitle scope agent =
     (if scope = gateway then ''Gateway agent health'' else ''Flock agent health'')
     @ '': '' @ agent @ '' (auto)''"

definition perAgentJob :: "int \<Rightarrow> Scope \<Rightarrow> int \<Rightarrow> Tally \<Rightarrow> string \<Rightarrow> World \<Rightarrow> World" where
  "perAgentJob t scope minCount y agent w =
     (let c401 = getOr0 (agents401 y) agent;
          cExec = getOr0 (agentsExecutorFailed y) agent;
          c405 = getOr0 (agents405 y) agent;
          c429 = getOr0 (agents429 y) agent;
          c5xx = getOr0 (agents5xx y) agent;
          total = c401 + cExec + c405 + c429 + c5xx
      in if total < minCount then w
         else
           let parts = plainPart ''401'' c401 @ plainPart ''429'' c429 @ plainPart ''5xx'' c5xx
                       @ plainPart ''executorFailed'' cExec @ plainPart ''405'' c405
           in upsertW t (healthPatch (agentJobId scope agent) (agentTitle scope agent)
                           blocked (join '', '' parts)) w)"

definition perAgentJobs :: "int \<Rightarrow> Scope \<Rightarrow> PerAgentCfg \<Rightarrow> Tally \<Rightarrow> World \<Rightarrow> World" where
  "perAgentJobs t scope pa y w =
     (let minCount = (case pa_minCount pa of Some m \<Rightarrow> m | None \<Rightarrow> 1)
      in if pa_enabled pa
         then fold (perAgentJob t scope minCount y)
                (keySet (map fst (agents401 y) @ map fst (agentsExecutorFailed y)
                         @ map fst (agents405 y) @ map fst (agents429 y)
                         @ map fst (agents5xx y)))
                w
         else w)"

section \<open>The escalation state machine (lines 668 to 729)\<close>

text \<open>
  \<^verbatim>\<open>bumpN\<close> on the scope's counters. The counters are an association list and
  \<open>getOr0\<close> looks the agent up among the keys stored in it. This is what
  \<^verbatim>\<open>scopeCounters[agentId] ?? 0\<close> reads for every agent id except the names of the
  properties of \<^verbatim>\<open>Object.prototype\<close> (\<open>objectPrototypeKeys\<close> below): \<^verbatim>\<open>scopeCounters\<close>
  is a plain object, so for such an id that is not yet a key the code reads the inherited
  property instead of \<^verbatim>\<open>0\<close>, and \<^verbatim>\<open>+ n\<close> stores a string, which the offender loop
  never finds greater than a number. Such ids are outside this model: the theorem on the
  firing transition excludes them with \<open>noInheritedNames\<close>.
\<close>

definition bumpN :: "string \<Rightarrow> int \<Rightarrow> (string \<times> int) list \<Rightarrow> (string \<times> int) list" where
  "bumpN agentId n sc =
     (if agentId = [] \<or> n \<le> 0 then sc
      else AList.update agentId (getOr0 sc agentId + n) sc)"

definition bumpAgent :: "Tally \<Rightarrow> string \<Rightarrow> (string \<times> int) list \<Rightarrow> (string \<times> int) list" where
  "bumpAgent y agentId sc =
     bumpN agentId (getOr0 (agentsExecutorFailed y) agentId)
       (bumpN agentId (getOr0 (agents5xx y) agentId)
         (bumpN agentId (getOr0 (agents429 y) agentId)
           (bumpN agentId (getOr0 (agents405 y) agentId)
             (bumpN agentId (getOr0 (agents401 y) agentId) sc))))"

definition escalationAgents :: "Tally \<Rightarrow> string list" where
  "escalationAgents y =
     keySet (map fst (agents401 y) @ map fst (agents405 y) @ map fst (agents429 y)
             @ map fst (agents5xx y) @ map fst (agentsExecutorFailed y))"

text \<open>The cumulative counters after this tick's per-agent counts are added.\<close>

definition accumulate :: "Tally \<Rightarrow> (string \<times> int) list \<Rightarrow> (string \<times> int) list" where
  "accumulate y sc = fold (bumpAgent y) (escalationAgents y) sc"

text \<open>
  \<^verbatim>\<open>Object.entries(scopeCounters)\<close>: the keys that are array indices (canonical decimal
  numerals up to \<open>2^32 - 2\<close>) come first, in ascending numeric order, then the other keys
  in insertion order.
\<close>

definition isDigit :: "char \<Rightarrow> bool" where
  "isDigit c = ((48::nat) \<le> of_char c \<and> of_char c \<le> (57::nat))"

definition digitsVal :: "string \<Rightarrow> int" where
  "digitsVal s = foldl (\<lambda>a c. 10 * a + (of_char c - 48)) 0 s"

definition isArrayIndex :: "string \<Rightarrow> bool" where
  "isArrayIndex s =
     (s \<noteq> [] \<and> list_all isDigit s \<and> (hd s \<noteq> CHR ''0'' \<or> length s = 1)
      \<and> digitsVal s \<le> 4294967294)"

definition entries :: "(string \<times> int) list \<Rightarrow> (string \<times> int) list" where
  "entries sc =
     sort_key (\<lambda>(k, v). digitsVal k) (filter (\<lambda>(k, v). isArrayIndex k) sc)
     @ filter (\<lambda>(k, v). \<not> isArrayIndex k) sc"

text \<open>The offender loop: the first entry with the largest count above zero.\<close>

definition offenderStep :: "string \<times> int \<Rightarrow> string \<times> int \<Rightarrow> string \<times> int" where
  "offenderStep e acc = (if snd e > snd acc then e else acc)"

definition findOffender :: "(string \<times> int) list \<Rightarrow> string \<times> int" where
  "findOffender sc = fold offenderStep (entries sc) ([], 0)"

definition escalationReason :: "int \<Rightarrow> string \<Rightarrow> int \<Rightarrow> string" where
  "escalationReason threshold offender offenderCount =
     ''error threshold hit: >='' @ showInt threshold @ '' (offender='' @ offender
     @ '', cumulative='' @ showInt offenderCount @ '')''"

definition threshold :: "EscalateCfg \<Rightarrow> int" where
  "threshold esc = (case e_threshold esc of Some x \<Rightarrow> x | None \<Rightarrow> 3)"

definition cooldownMs :: "EscalateCfg \<Rightarrow> int" where
  "cooldownMs esc = (case e_cooldownMs esc of Some x \<Rightarrow> x | None \<Rightarrow> 5 * 60000)"

definition mention :: "EscalateCfg \<Rightarrow> string" where
  "mention esc = (case e_mention esc of Some x \<Rightarrow> x | None \<Rightarrow> ''@here'')"

definition escalate :: "EscalateCfg \<Rightarrow> Scope \<Rightarrow> int \<Rightarrow> Tally \<Rightarrow> PluginState \<Rightarrow> PluginState" where
  "escalate esc scope t y s =
     (if \<not> e_enabled esc then s
      else
        let scopeCounters = accumulate y (counters (observe s) scope);
            (offender, offenderCount) = findOffender scopeCounters;
            shouldEscalate = (offenderCount \<ge> threshold esc);
            cooledDown = (t - lastEscalateAt (observe s) \<ge> cooldownMs esc)
        in if shouldEscalate \<and> cooledDown
           then
             let reason = escalationReason (threshold esc) offender offenderCount
             in s\<lparr> observe := (observe s)
                      \<lparr> lastEscalateAt := t,
                        lastEscalateReason := reason,
                        counters := (counters (observe s))
                          (scope := (if offender \<noteq> []
                                     then AList.update offender (threshold esc) scopeCounters
                                     else scopeCounters)) \<rparr>,
                    observeEscalation :=
                      \<lparr> pending = True, forcedMention = mention esc, reason = reason,
                        setAt = t \<rparr> \<rparr>
           else s\<lparr> observe := (observe s)
                     \<lparr> counters := (counters (observe s))(scope := scopeCounters) \<rparr> \<rparr>)"

section \<open>observeFromGatewayLogs\<close>

definition scopeOf :: "ObserveCfg \<Rightarrow> Scope" where
  "scopeOf oc = (case o_scope oc of Some sc \<Rightarrow> sc | None \<Rightarrow> gateway)"

definition maxBytes :: "ObserveCfg \<Rightarrow> int" where
  "maxBytes oc = (case o_maxBytesPerTick oc of Some m \<Rightarrow> m | None \<Rightarrow> 1024 * 1024)"

definition clearObserveLast :: "PluginState \<Rightarrow> PluginState" where
  "clearObserveLast s =
     s\<lparr> observeLast := \<lparr> escalated = False, ol_forcedMention = [], ol_reason = [] \<rparr> \<rparr>"

text \<open>The lines the detector sees in a tick whose poll returned \<open>text\<close>, and their tally.\<close>

definition tickTally :: "ObserveCfg \<Rightarrow> Patterns \<Rightarrow> string \<Rightarrow> Tally" where
  "tickTally oc pats text = scanLines oc pats (scopeOf oc) (splitLines text)"

definition observeFromGatewayLogs :: "ObserveCfg \<Rightarrow> Patterns \<Rightarrow> TickEnv \<Rightarrow> World \<Rightarrow> World" where
  "observeFromGatewayLogs oc pats env w =
     (if \<not> o_enabled oc then w
      else
        let scope = scopeOf oc; t = now env
        in case envLogFile env of
             None \<Rightarrow>
               upsertW t (healthPatch (baseJobId scope) (baseTitle scope) waiting
                            (''gateway log not found: '' @ envLogPath env)) w
           | Some content \<Rightarrow>
               (case pollOnce (envLogPath env) content (maxBytes oc) (observe (st w)) of
                  Inl ob \<Rightarrow> w\<lparr> st := (st w)\<lparr> observe := ob \<rparr> \<rparr>
                | Inr (ob, text) \<Rightarrow>
                    let y = tickTally oc pats text;
                        w1 = w\<lparr> st := clearObserveLast ((st w)\<lparr> observe := ob \<rparr>) \<rparr>
                    in if allZero y then w1
                       else
                         let w2 = perAgentJobs t scope (o_perAgentJobs oc) y w1;
                             w3 = w2\<lparr> st := escalate (o_escalate oc) scope t y (st w2) \<rparr>;
                             w4 = upsertW t
                                    (healthPatch (baseJobId scope) (baseTitle scope) (stateStr y)
                                       (''Detected '' @ scopeName scope
                                        @ '' errors in gateway logs: ''
                                        @ join '', '' (detailParts y)))
                                    w3
                         in saveState w4))"

text \<open>A run of detector ticks, one environment per tick.\<close>

fun observeTicks :: "ObserveCfg \<Rightarrow> Patterns \<Rightarrow> TickEnv list \<Rightarrow> World \<Rightarrow> World" where
  "observeTicks oc pats [] w = w"
| "observeTicks oc pats (env # envs) w =
     observeTicks oc pats envs (observeFromGatewayLogs oc pats env w)"

section \<open>The briefing scheduler (tick) and the reset tool\<close>

text \<open>
  \<^verbatim>\<open>text.replace(/^\[progress-briefing\] [^\n]+\n?/, "")\<close>: when the text starts with
  the tag and at least one character other than a line feed follows it, the tag, the run
  of such characters and one line feed after them are removed; else the text is kept.
\<close>

definition stripHeader :: "string \<Rightarrow> string" where
  "stripHeader text =
     (let tag = ''[progress-briefing] '';
          rest = drop (length tag) text
      in if take (length tag) text = tag \<and> takeWhile (\<lambda>c. c \<noteq> CHR 0x0A) rest \<noteq> []
         then (case dropWhile (\<lambda>c. c \<noteq> CHR 0x0A) rest of [] \<Rightarrow> [] | c # cs \<Rightarrow> cs)
         else text)"

text \<open>
  \<^verbatim>\<open>cfg.discord\<close>, \<^verbatim>\<open>cfg.pollEveryMs\<close> and the host's token. \<open>d_enabled\<close> is
  \<^verbatim>\<open>cfg.discord?.enabled !== false\<close>. \<open>render\<close> is \<^verbatim>\<open>formatBrief\<close> with the header and
  the activity lists of the tick; \<open>sendOk\<close> tells whether \<^verbatim>\<open>discordSendText\<close> returns
  (\<open>True\<close>) or throws.
\<close>

record BriefCfg =
  pollEveryMs :: "int option"
  d_enabled :: bool
  d_channelId :: "string option"
  d_mention :: "string option"
  discordToken :: "string option"
  observeCfg :: ObserveCfg

datatype TickOutcome = NotPosted | Posted string bool | PostFailed string

definition truthy :: "string option \<Rightarrow> bool" where
  "truthy x = (case x of Some v \<Rightarrow> v \<noteq> [] | None \<Rightarrow> False)"

definition contentChanged :: "string \<Rightarrow> PluginState \<Rightarrow> bool" where
  "contentChanged text s = (stripHeader text \<noteq> stripHeader (lastBriefContent s))"

definition timePassed :: "BriefCfg \<Rightarrow> int \<Rightarrow> PluginState \<Rightarrow> bool" where
  "timePassed cfg t s =
     (t - lastBriefAt s \<ge> (case pollEveryMs cfg of Some p \<Rightarrow> p | None \<Rightarrow> 30000))"

definition shouldPost :: "BriefCfg \<Rightarrow> int \<Rightarrow> string \<Rightarrow> PluginState \<Rightarrow> bool" where
  "shouldPost cfg t text s =
     ((timePassed cfg t s \<and> contentChanged text s) \<or> pending (observeEscalation s))"

definition briefContent :: "BriefCfg \<Rightarrow> string \<Rightarrow> PluginState \<Rightarrow> string" where
  "briefContent cfg text s =
     (let forced = (if pending (observeEscalation s) then forcedMention (observeEscalation s)
                    else []);
          mentionOpt = (if forced \<noteq> [] then Some forced else d_mention cfg);
          c1 = (if truthy mentionOpt then the mentionOpt @ [CHR 0x0A] @ text else text)
      in if pending (observeEscalation s) \<and> reason (observeEscalation s) \<noteq> []
         then c1 @ [CHR 0x0A, CHR 0x0A] @ ''[escalation] '' @ reason (observeEscalation s)
         else c1)"

text \<open>The part of \<^verbatim>\<open>tick\<close> after the rollup text is rendered (lines 1052 to 1105).\<close>

definition publish :: "BriefCfg \<Rightarrow> bool \<Rightarrow> int \<Rightarrow> string \<Rightarrow> World \<Rightarrow> TickOutcome \<times> World" where
  "publish cfg sendOk t text w =
     (let s = st w
      in if \<not> shouldPost cfg t text s then (NotPosted, w)
         else
           let content = briefContent cfg text s;
               viaDiscord = (d_enabled cfg \<and> truthy (d_channelId cfg) \<and> truthy (discordToken cfg))
           in if viaDiscord \<and> \<not> sendOk then (PostFailed content, w)
              else
                let s1 = (if pending (observeEscalation s)
                          then s\<lparr> observeEscalation := (observeEscalation s)\<lparr> pending := False \<rparr> \<rparr>
                          else s);
                    s2 = s1\<lparr> lastBriefAt := t, lastBriefContent := text \<rparr>
                in (Posted content viaDiscord, saveState (w\<lparr> st := s2 \<rparr>)))"

definition tick ::
  "BriefCfg \<Rightarrow> Patterns \<Rightarrow> (JobRecord list \<Rightarrow> string) \<Rightarrow> bool \<Rightarrow> TickEnv \<Rightarrow> World
     \<Rightarrow> TickOutcome \<times> World" where
  "tick cfg pats render sendOk env w =
     (let w1 = observeFromGatewayLogs (observeCfg cfg) pats env w;
          jobs = readJobs (jobsLog w1);
          text = render jobs
      in publish cfg sendOk (now env) text w1)"

text \<open>
  The tool \<^verbatim>\<open>progress_briefing_reset\<close>. \<open>confirm\<close> is the value of \<^verbatim>\<open>params?.confirm\<close>,
  which the code compares with \<^verbatim>\<open>!== true\<close>. The state written by the reset has no
  \<^verbatim>\<open>lastBriefContent\<close>; every reader applies \<^verbatim>\<open>?? ""\<close>, so it is the empty string.
\<close>

datatype Param = PUndefined | PBool bool | PNumber int | PString string

datatype ResetResult = Disabled | Refused | Cleared

definition progress_briefing_reset :: "bool \<Rightarrow> Param \<Rightarrow> World \<Rightarrow> ResetResult \<times> World" where
  "progress_briefing_reset enabled confirm w =
     (if \<not> enabled then (Disabled, w)
      else if confirm \<noteq> PBool True then (Refused, w)
      else
        (Cleared,
         saveState (w\<lparr> jobsLog := (case jobsLog w of None \<Rightarrow> None | Some ls \<Rightarrow> Some []),
                       st := initialState \<rparr>)))"

text \<open>The tool \<^verbatim>\<open>progress_briefing_report\<close>.\<close>

definition progress_briefing_report ::
  "bool \<Rightarrow> int \<Rightarrow> JobPatch \<Rightarrow> World \<Rightarrow> JobRecord option \<times> World" where
  "progress_briefing_report enabled t params w =
     (if \<not> enabled then (None, w)
      else (Some (fst (upsertJob t params (jobsLog w))), upsertW t params w))"

section \<open>Reference notions and concrete inputs\<close>

text \<open>
  The reading of the event log in the words of the specification: a line is bad when it
  is blank, unparseable, or parses to a value without a (non-empty) \<^verbatim>\<open>jobId\<close>; the
  records of the other lines, in file order, are the well-formed events; the current
  record of a \<^verbatim>\<open>jobId\<close> is the last event that carries it.
\<close>

definition goodRecords :: "line list \<Rightarrow> JobRecord list" where
  "goodRecords ls =
     concat (map (\<lambda>l. case l of
                         WellFormed (JRecord r) \<Rightarrow> if jobId r \<noteq> [] then [r] else []
                       | _ \<Rightarrow> []) ls)"

definition isBad :: "line \<Rightarrow> bool" where
  "isBad l = (case l of Blank \<Rightarrow> True | Malformed \<Rightarrow> True | WellFormed JOther \<Rightarrow> True
                | WellFormed (JRecord r) \<Rightarrow> jobId r = [])"

definition lastFor :: "string \<Rightarrow> JobRecord list \<Rightarrow> JobRecord option" where
  "lastFor k rs = (case rev (filter (\<lambda>r. jobId r = k) rs) of [] \<Rightarrow> None | r # _ \<Rightarrow> Some r)"

text \<open>
  The text a tick's poll returns (empty when the file is missing or the read throws) and
  the tally of that text.
\<close>

definition polledText :: "ObserveCfg \<Rightarrow> TickEnv \<Rightarrow> World \<Rightarrow> string" where
  "polledText oc env w =
     (case envLogFile env of
        None \<Rightarrow> []
      | Some content \<Rightarrow>
          (case pollOnce (envLogPath env) content (maxBytes oc) (observe (st w)) of
             Inl ob \<Rightarrow> []
           | Inr (ob, text) \<Rightarrow> text))"

definition tallyOf :: "ObserveCfg \<Rightarrow> Patterns \<Rightarrow> TickEnv \<Rightarrow> World \<Rightarrow> Tally" where
  "tallyOf oc pats env w = tickTally oc pats (polledText oc env w)"

text \<open>
  The counters of a scope are a JavaScript object: each key occurs once. \<^verbatim>\<open>bumpN\<close>
  never stores the empty agent id, so no state built by the code has it as a key.
\<close>

definition validCounters :: "(string \<times> int) list \<Rightarrow> bool" where
  "validCounters sc = (distinct (map fst sc) \<and> [] \<notin> set (map fst sc))"

text \<open>
  The property names of \<^verbatim>\<open>Object.prototype\<close>, which every plain object inherits. All
  of them are agent ids that \<^verbatim>\<open>/session:agent:([a-zA-Z0-9_-]+)/\<close> can capture. For these
  names \<^verbatim>\<open>scopeCounters[agentId]\<close> is not \<^verbatim>\<open>undefined\<close> on a fresh object, and the
  counter that \<^verbatim>\<open>bumpN\<close> stores is a string, not a number.
\<close>

definition objectPrototypeKeys :: "string list" where
  "objectPrototypeKeys =
     [''constructor'', ''__defineGetter__'', ''__defineSetter__'', ''hasOwnProperty'',
      ''__lookupGetter__'', ''__lookupSetter__'', ''isPrototypeOf'',
      ''propertyIsEnumerable'', ''toString'', ''valueOf'', ''__proto__'',
      ''toLocaleString'']"

definition noInheritedNames :: "string list \<Rightarrow> bool" where
  "noInheritedNames ids = list_all (\<lambda>a. \<not> List.member objectPrototypeKeys a) ids"

text \<open>The errors a tick attributes to an agent, over the five attributed categories.\<close>

definition agentTotal :: "Tally \<Rightarrow> string \<Rightarrow> int" where
  "agentTotal y a =
     getOr0 (agents401 y) a + getOr0 (agents405 y) a + getOr0 (agents429 y) a
     + getOr0 (agents5xx y) a + getOr0 (agentsExecutorFailed y) a"

text \<open>
  What holds of every tally the detector builds: an agent that has an entry is not the
  empty id and its count is positive.
\<close>

definition agentsOK :: "(string \<times> int) list \<Rightarrow> bool" where
  "agentsOK m = list_all (\<lambda>(k, v). k \<noteq> [] \<and> 0 < v) m"

definition tallyOK :: "Tally \<Rightarrow> bool" where
  "tallyOK y =
     (agentsOK (agents401 y) \<and> agentsOK (agents405 y) \<and> agentsOK (agents429 y)
      \<and> agentsOK (agents5xx y) \<and> agentsOK (agentsExecutorFailed y))"

text \<open>
  A tally without any attributed error; a tick in which every line that matches has no
  agent identity (\<^verbatim>\<open>extractAgent\<close> returns \<^verbatim>\<open>""\<close>); a run of such ticks, each taken in
  the world the ticks before it left.
\<close>

definition noAgents :: "Tally \<Rightarrow> bool" where
  "noAgents y =
     (agents401 y = [] \<and> agents405 y = [] \<and> agents429 y = [] \<and> agents5xx y = []
      \<and> agentsExecutorFailed y = [])"

definition tickUnattributed :: "ObserveCfg \<Rightarrow> Patterns \<Rightarrow> TickEnv \<Rightarrow> World \<Rightarrow> bool" where
  "tickUnattributed oc pats env w =
     list_all (\<lambda>l. \<not> matches oc pats (scopeOf oc) l \<or> extractAgent pats l = [])
       (splitLines (polledText oc env w))"

fun unattributedRun :: "ObserveCfg \<Rightarrow> Patterns \<Rightarrow> TickEnv list \<Rightarrow> World \<Rightarrow> bool" where
  "unattributedRun oc pats [] w = True"
| "unattributedRun oc pats (env # envs) w =
     (tickUnattributed oc pats env w
      \<and> unattributedRun oc pats envs (observeFromGatewayLogs oc pats env w))"

text \<open>The reports of the end-to-end scenario, and a report on another job.\<close>

definition build1_first :: JobPatch where
  "build1_first = (emptyPatch ''build-1'')\<lparr> p_state := Some running, p_progress := Some 10 \<rparr>"

definition build1_second :: JobPatch where
  "build1_second = (emptyPatch ''build-1'')\<lparr> p_progress := Some 90 \<rparr>"

definition deploy_first :: JobPatch where
  "deploy_first = (emptyPatch ''deploy-7'')\<lparr> p_state := Some waiting, p_createdAt := Some 5 \<rparr>"

definition build1_after_first :: JobRecord where
  "build1_after_first =
     \<lparr> jobId = ''build-1'', title = None, owner = None, state = running, progress = Some 10,
       detail = None, createdAt = 1000, updatedAt = 1000, lastActivityAt = 1000 \<rparr>"

text \<open>A cursor at the start of \<^verbatim>\<open>gateway.log\<close>, and a world with one stored job.\<close>

definition cursorAtStart :: Observe where
  "cursorAtStart =
     \<lparr> logPath = ''gateway.log'', pos = 0, lastSize = 0, lastEscalateAt = 0,
       lastEscalateReason = [], counters = (\<lambda>_. []) \<rparr>"

definition worldWithJob :: World where
  "worldWithJob =
     \<lparr> st = initialState\<lparr> lastBriefAt := 500 \<rparr>,
       jobsLog = Some [WellFormed (JRecord build1_after_first)],
       stateFile = None \<rparr>"

text \<open>
  A scheduler configuration with the Discord transport configured and observation off,
  a world with a latched escalation, a rendering and a tick environment.
\<close>

definition observeOff :: ObserveCfg where
  "observeOff =
     \<lparr> o_enabled = False, o_scope = None, o_maxBytesPerTick = None, o_includeRegexes = [],
       o_excludeRegexes = [],
       o_perAgentJobs = \<lparr> pa_enabled = False, pa_minCount = None \<rparr>,
       o_escalate = \<lparr> e_enabled = False, e_threshold = None, e_cooldownMs = None,
                      e_mention = None \<rparr> \<rparr>"

definition briefCfg0 :: BriefCfg where
  "briefCfg0 =
     \<lparr> pollEveryMs = None, d_enabled = True, d_channelId = Some ''123'', d_mention = None,
       discordToken = Some ''tok'', observeCfg = observeOff \<rparr>"

definition worldPending :: World where
  "worldPending =
     \<lparr> st = initialState\<lparr> observeEscalation :=
              \<lparr> pending = True, forcedMention = ''@here'', reason = ''r'', setAt = 5 \<rparr> \<rparr>,
       jobsLog = None, stateFile = None \<rparr>"

definition render0 :: "JobRecord list \<Rightarrow> string" where
  "render0 jobs = ''[progress-briefing] t'' @ [CHR 0x0A] @ ''(no activity)''"

text \<open>
  Two worlds in which a briefing was published long ago, under the timestamp
  \<^verbatim>\<open>t0\<close>, and no escalation is pending: in the first the published body is the body
  \<open>render0\<close> gives, in the second it is another one.
\<close>

definition worldBriefed :: World where
  "worldBriefed =
     \<lparr> st = initialState
          \<lparr> lastBriefContent := ''[progress-briefing] t0'' @ [CHR 0x0A] @ ''(no activity)'' \<rparr>,
       jobsLog = None, stateFile = None \<rparr>"

definition worldBriefedOther :: World where
  "worldBriefedOther =
     \<lparr> st = initialState
          \<lparr> lastBriefContent := ''[progress-briefing] t0'' @ [CHR 0x0A] @ ''- build-1: running'' \<rparr>,
       jobsLog = None, stateFile = None \<rparr>"

definition env0 :: TickEnv where
  "env0 = \<lparr> now = 100000, envLogPath = ''gateway.log'', envLogFile = None \<rparr>"

text \<open>
  Stand-ins for the regular expressions, for the concrete runs below: substring tests
  for the HTTP patterns, and an agent tag of the form \<^verbatim>\<open>session:agent:pm\<close> for the one
  agent \<^verbatim>\<open>pm\<close>. On the three kinds of line the runs use (\<^verbatim>\<open>HTTP 401 session:agent:pm\<close>,
  \<^verbatim>\<open>HTTP 401 unauthorized\<close>, \<^verbatim>\<open>all good\<close>) they give what the regular expressions of the
  code give: the first two match \<^verbatim>\<open>/\bHTTP\s+4\d\d\b/i\<close> and count as 401 only, the
  first is attributed to \<^verbatim>\<open>pm\<close> by \<^verbatim>\<open>/session:agent:([a-zA-Z0-9_-]+)/\<close>, the second
  to no agent, and the third matches nothing.
\<close>

definition patterns0 :: Patterns where
  "patterns0 =
     \<lparr> defaultIncludeGateway = [\<lambda>l. str_includes l ''HTTP 4'', \<lambda>l. str_includes l ''HTTP 5''],
       rxAgentResponded = (\<lambda>l. None),
       rxForAgentAt = (\<lambda>l. None),
       rxSessionAgent = (\<lambda>l. if str_includes l ''session:agent:pm'' then Some ''pm'' else None),
       rxHttp405 = (\<lambda>l. str_includes l ''HTTP 405''),
       rxHttp429 = (\<lambda>l. str_includes l ''HTTP 429''),
       rxHttp5xx = (\<lambda>l. str_includes l ''HTTP 5''),
       rxGatewayHttp5xx = (\<lambda>l. str_includes l ''Gateway HTTP 5'') \<rparr>"

text \<open>
  Concrete runs of the detector, gateway scope, escalation enabled with the default
  threshold 3 and cooldown of five minutes: a fresh world; a log of three \<^verbatim>\<open>HTTP 401\<close>
  lines attributed to \<^verbatim>\<open>pm\<close> and the tick that reads it; the world after that tick; a
  later tick in which the log has grown by one harmless line; a tick on a log with only
  a harmless line.
\<close>

definition observeEsc :: ObserveCfg where
  "observeEsc =
     \<lparr> o_enabled = True, o_scope = None, o_maxBytesPerTick = None, o_includeRegexes = [],
       o_excludeRegexes = [],
       o_perAgentJobs = \<lparr> pa_enabled = False, pa_minCount = None \<rparr>,
       o_escalate = \<lparr> e_enabled = True, e_threshold = None, e_cooldownMs = None,
                      e_mention = None \<rparr> \<rparr>"

definition worldFresh :: World where
  "worldFresh = \<lparr> st = initialState, jobsLog = None, stateFile = None \<rparr>"

definition log401x3 :: string where
  "log401x3 =
     ''HTTP 401 session:agent:pm'' @ [CHR 0x0A]
     @ ''HTTP 401 session:agent:pm'' @ [CHR 0x0A]
     @ ''HTTP 401 session:agent:pm'' @ [CHR 0x0A]"

definition envBurst :: TickEnv where
  "envBurst = \<lparr> now = 1000000, envLogPath = ''gateway.log'', envLogFile = Some log401x3 \<rparr>"

definition worldAfterBurst :: World where
  "worldAfterBurst = observeFromGatewayLogs observeEsc patterns0 envBurst worldFresh"

definition envCalm :: TickEnv where
  "envCalm =
     \<lparr> now = 1030000, envLogPath = ''gateway.log'',
       envLogFile = Some (log401x3 @ ''all good'' @ [CHR 0x0A]) \<rparr>"

definition envHarmless :: TickEnv where
  "envHarmless =
     \<lparr> now = 1000000, envLogPath = ''gateway.log'',
       envLogFile = Some (''all good'' @ [CHR 0x0A]) \<rparr>"

text \<open>
  A world whose counter for \<^verbatim>\<open>pm\<close> stands at the threshold, with no escalation
  pending and the last escalation at time 1000000, the cursor at the end of the log; and
  a tick one thousand seconds later on the same log, which has not grown.
\<close>

definition worldHot :: World where
  "worldHot =
     \<lparr> st = initialState
          \<lparr> observe :=
              \<lparr> logPath = ''gateway.log'', pos = 78, lastSize = 78, lastEscalateAt = 1000000,
                lastEscalateReason = [], counters = (\<lambda>_. [])(gateway := [(''pm'', 3)]) \<rparr> \<rparr>,
       jobsLog = None, stateFile = None \<rparr>"

definition envQuiet :: TickEnv where
  "envQuiet = \<lparr> now = 2000000, envLogPath = ''gateway.log'', envLogFile = Some log401x3 \<rparr>"

text \<open>
  The same configuration with a threshold of 0, and ticks on a log whose lines match
  \<^verbatim>\<open>HTTP 401\<close> and carry no agent identity.
\<close>

definition observeEsc0 :: ObserveCfg where
  "observeEsc0 =
     observeEsc\<lparr> o_escalate := \<lparr> e_enabled = True, e_threshold = Some 0, e_cooldownMs = None,
                                  e_mention = None \<rparr> \<rparr>"

definition logUnattributed :: string where
  "logUnattributed =
     ''HTTP 401 unauthorized'' @ [CHR 0x0A] @ ''HTTP 401 unauthorized'' @ [CHR 0x0A]
     @ ''HTTP 401 unauthorized'' @ [CHR 0x0A] @ ''HTTP 401 unauthorized'' @ [CHR 0x0A]"

definition envUnattributed1 :: TickEnv where
  "envUnattributed1 =
     \<lparr> now = 1000000, envLogPath = ''gateway.log'', envLogFile = Some logUnattributed \<rparr>"

definition envUnattributed2 :: TickEnv where
  "envUnattributed2 =
     \<lparr> now = 1030000, envLogPath = ''gateway.log'',
       envLogFile = Some (logUnattributed @ logUnattributed) \<rparr>"

section \<open>Facts about the reduction\<close>

lemma map_of_latestPerJobId_snoc:
  "map_of (latestPerJobId (js @ [j])) = (map_of (latestPerJobId js))(jobId j \<mapsto> j)"
  by (simp add: latestPerJobId_def update_conv')

lemma distinct_latestPerJobId: "distinct (map fst (latestPerJobId js))"
proof (induction js rule: rev_induct)
  case Nil
  show ?case by (simp add: latestPerJobId_def)
next
  case (snoc j js)
  have "latestPerJobId (js @ [j]) = AList.update (jobId j) j (latestPerJobId js)"
    by (simp add: latestPerJobId_def)
  with snoc show ?case by (simp add: distinct_update)
qed

lemma latestPerJobId_key:
  "(k, r) \<in> set (latestPerJobId js) \<Longrightarrow> jobId r = k \<and> r \<in> set js"
proof (induction js arbitrary: k r rule: rev_induct)
  case Nil
  then show ?case by (simp add: latestPerJobId_def)
next
  case (snoc j js)
  have m: "map_of (latestPerJobId (js @ [j])) k = Some r"
    using snoc.prems distinct_latestPerJobId [of "js @ [j]"] by simp
  show ?case
  proof (cases "k = jobId j")
    case True
    with m have "r = j" by (simp add: map_of_latestPerJobId_snoc)
    with True show ?thesis by simp
  next
    case False
    with m have "map_of (latestPerJobId js) k = Some r"
      by (simp add: map_of_latestPerJobId_snoc)
    then have "(k, r) \<in> set (latestPerJobId js)" by (rule map_of_SomeD)
    with snoc.IH show ?thesis by auto
  qed
qed

lemma find_unique_key:
  assumes d: "distinct (map fst m)"
    and key: "\<And>k r. (k, r) \<in> set m \<Longrightarrow> f r = k"
    and xs: "set xs = snd ` set m"
  shows "find (\<lambda>r. f r = k) xs = map_of m k"
proof (cases "map_of m k")
  case None
  have "\<not> (\<exists>r. r \<in> set xs \<and> f r = k)"
  proof
    assume "\<exists>r. r \<in> set xs \<and> f r = k"
    then obtain r where r: "r \<in> set xs" "f r = k" by blast
    then obtain k' where k': "(k', r) \<in> set m" using xs by auto
    with key r have "k' = k" by auto
    with k' d have "map_of m k = Some r" by simp
    with None show False by simp
  qed
  then have "find (\<lambda>r. f r = k) xs = None" by (simp add: find_None_iff)
  with None show ?thesis by simp
next
  case (Some r)
  then have in_m: "(k, r) \<in> set m" by (rule map_of_SomeD)
  then have fr: "f r = k" by (rule key)
  from in_m have "r \<in> set xs" using xs by force
  then have "find (\<lambda>r. f r = k) xs \<noteq> None" using fr by (auto simp: find_None_iff)
  then obtain r' where r': "find (\<lambda>r. f r = k) xs = Some r'" by auto
  then have "r' \<in> set xs" "f r' = k" by (auto simp: find_Some_iff)
  then obtain k' where k': "(k', r') \<in> set m" using xs by auto
  with key \<open>f r' = k\<close> have "(k, r') \<in> set m" by auto
  with d have "map_of m k = Some r'" by simp
  with Some r' show ?thesis by simp
qed

lemma keptJobs_append: "keptJobs (xs @ ys) = keptJobs xs @ keptJobs ys"
  by (simp add: keptJobs_def map_filter_def)

lemma keptJobs_record:
  "keptJobs [WellFormed (JRecord r)] = (if jobId r \<noteq> [] then [r] else [])"
  by (simp add: keptJobs_def map_filter_def)

lemma currentJob_Some: "currentJob k (Some ls) = map_of (latestPerJobId (keptJobs ls)) k"
  unfolding currentJob_def readJobs_def keptJobs_def [symmetric] Let_def option.case
  by (rule find_unique_key [OF distinct_latestPerJobId])
     (auto dest: latestPerJobId_key)

lemma currentJob_None [simp]: "currentJob k None = None"
  by (simp add: currentJob_def readJobs_def)

lemma currentJob_appendJob:
  "currentJob k (appendJob r file) =
     (if k = jobId r \<and> jobId r \<noteq> [] then Some r else currentJob k file)"
proof (cases "file")
  case None
  have "currentJob k (Some [WellFormed (JRecord r)]) =
          (if k = jobId r \<and> jobId r \<noteq> [] then Some r else None)"
    by (simp add: currentJob_Some keptJobs_record latestPerJobId_def)
  with None show ?thesis by (simp add: appendJob_def)
next
  case (Some ls)
  show ?thesis
  proof (cases "jobId r \<noteq> []")
    case True
    then have "keptJobs (ls @ [WellFormed (JRecord r)]) = keptJobs ls @ [r]"
      by (simp add: keptJobs_append keptJobs_record)
    with Some True show ?thesis
      by (simp add: appendJob_def currentJob_Some map_of_latestPerJobId_snoc)
  next
    case False
    then have "keptJobs (ls @ [WellFormed (JRecord r)]) = keptJobs ls"
      by (simp add: keptJobs_append keptJobs_record)
    with Some False show ?thesis
      by (simp add: appendJob_def currentJob_Some)
  qed
qed

lemma jobId_mergePatch [simp]: "jobId (mergePatch t base patch) = p_jobId patch"
  by (simp add: mergePatch_def)

lemma currentJob_upsertJob:
  "currentJob k (snd (upsertJob t patch file)) =
     (if k = p_jobId patch \<and> p_jobId patch \<noteq> []
      then Some (fst (upsertJob t patch file))
      else currentJob k file)"
  by (simp add: upsertJob_def Let_def currentJob_appendJob)

lemma baseRecord_currentJob:
  "baseRecord t patch (readJobs file) =
     (case currentJob (p_jobId patch) file of
        Some prev \<Rightarrow> prev
      | None \<Rightarrow>
          \<lparr> jobId = p_jobId patch, title = None, owner = None, state = registered,
            progress = None, detail = None,
            createdAt = t, updatedAt = t, lastActivityAt = t \<rparr>)"
  by (simp add: baseRecord_def currentJob_def)

section \<open>The store read: bad lines, last write wins\<close>

lemma keptJobs_Nil [simp]: "keptJobs [] = []"
  by (simp add: keptJobs_def map_filter_def)

lemma keptJobs_Cons:
  "keptJobs (l # ls) =
     (case l of
        WellFormed (JRecord r) \<Rightarrow> if jobId r \<noteq> [] then r # keptJobs ls else keptJobs ls
      | _ \<Rightarrow> keptJobs ls)"
  by (simp add: keptJobs_def map_filter_def split: line.splits json.splits)

lemma keptJobs_goodRecords: "keptJobs ls = goodRecords ls"
proof (induction ls)
  case Nil
  show ?case by (simp add: goodRecords_def)
next
  case (Cons l ls)
  then show ?case
    by (simp add: keptJobs_Cons goodRecords_def split: line.splits json.splits)
qed

lemma keptJobs_filter_bad: "keptJobs (filter (\<lambda>l. \<not> isBad l) ls) = keptJobs ls"
  by (induction ls) (simp_all add: keptJobs_Cons isBad_def split: line.splits json.splits)

lemma keptJobs_nonempty_id: "r \<in> set (keptJobs ls) \<Longrightarrow> jobId r \<noteq> []"
  by (induction ls) (auto simp: keptJobs_Cons split: line.splits json.splits if_splits)

lemma map_of_latest_lastFor: "map_of (latestPerJobId js) k = lastFor k js"
proof (induction js rule: rev_induct)
  case Nil
  show ?case by (simp add: latestPerJobId_def lastFor_def)
next
  case (snoc j js)
  then show ?case by (simp add: map_of_latestPerJobId_snoc lastFor_def)
qed

lemma readJobs_Some: "readJobs (Some ls) = sort_key createdAt (map snd (latestPerJobId (keptJobs ls)))"
  by (simp add: readJobs_def keptJobs_def)

lemma set_readJobs:
  "r \<in> set (readJobs (Some ls)) \<longleftrightarrow> lastFor (jobId r) (keptJobs ls) = Some r"
proof
  assume "r \<in> set (readJobs (Some ls))"
  then obtain k where "(k, r) \<in> set (latestPerJobId (keptJobs ls))"
    by (auto simp: readJobs_Some)
  moreover from this have "jobId r = k" by (auto dest: latestPerJobId_key)
  ultimately have "map_of (latestPerJobId (keptJobs ls)) (jobId r) = Some r"
    using distinct_latestPerJobId [of "keptJobs ls"] by simp
  then show "lastFor (jobId r) (keptJobs ls) = Some r" by (simp add: map_of_latest_lastFor)
next
  assume "lastFor (jobId r) (keptJobs ls) = Some r"
  then have "map_of (latestPerJobId (keptJobs ls)) (jobId r) = Some r"
    by (simp add: map_of_latest_lastFor)
  then have "(jobId r, r) \<in> set (latestPerJobId (keptJobs ls))" by (rule map_of_SomeD)
  then show "r \<in> set (readJobs (Some ls))" by (force simp: readJobs_Some)
qed

text \<open>
  Claim C9 (corruption tolerance of the store read). \<^verbatim>\<open>readJobs\<close> is a total function of
  the file content: no line makes it fail. Removing every bad line (blank, unparseable,
  parsed without a \<^verbatim>\<open>jobId\<close>) from a file does not change what is read; a record is
  returned exactly when it is the last well-formed event of its \<^verbatim>\<open>jobId\<close>; and the
  lookup of a \<^verbatim>\<open>jobId\<close> gives that last event.
\<close>

theorem readJobs_skips_bad_lines:
  "readJobs (Some ls) = readJobs (Some (filter (\<lambda>l. \<not> isBad l) ls))
   \<and> (r \<in> set (readJobs (Some ls)) \<longleftrightarrow> lastFor (jobId r) (goodRecords ls) = Some r)
   \<and> currentJob k (Some ls) = lastFor k (goodRecords ls)"
proof -
  have a: "readJobs (Some ls) = readJobs (Some (filter (\<lambda>l. \<not> isBad l) ls))"
    by (simp add: readJobs_Some keptJobs_filter_bad)
  have b: "r \<in> set (readJobs (Some ls)) \<longleftrightarrow> lastFor (jobId r) (goodRecords ls) = Some r"
    using set_readJobs [of r ls] by (simp add: keptJobs_goodRecords)
  have c: "currentJob k (Some ls) = lastFor k (goodRecords ls)"
    by (simp add: currentJob_Some map_of_latest_lastFor keptJobs_goodRecords)
  from a b c show ?thesis by blast
qed

lemma currentJob_SomeD: "currentJob k file = Some r \<Longrightarrow> jobId r = k \<and> k \<noteq> []"
proof (cases "file")
  case None
  assume "currentJob k file = Some r"
  with None show ?thesis by simp
next
  case (Some ls)
  assume "currentJob k file = Some r"
  with Some have "map_of (latestPerJobId (keptJobs ls)) k = Some r" by (simp add: currentJob_Some)
  then have "(k, r) \<in> set (latestPerJobId (keptJobs ls))" by (rule map_of_SomeD)
  then have "jobId r = k" "r \<in> set (keptJobs ls)" by (auto dest: latestPerJobId_key)
  then show ?thesis by (auto dest: keptJobs_nonempty_id)
qed

lemma currentJob_empty_id [simp]: "currentJob [] f = None"
proof (cases "currentJob [] f")
  case None
  then show ?thesis .
next
  case (Some r)
  then have "([]::string) \<noteq> []" by (auto dest: currentJob_SomeD)
  then show ?thesis by simp
qed

section \<open>upsertJob: partial patches and createdAt\<close>

lemma upsertJob_fst_prev:
  "currentJob (p_jobId patch) file = Some prev \<Longrightarrow>
     fst (upsertJob t patch file) = mergePatch t prev patch"
  by (simp add: upsertJob_def Let_def baseRecord_currentJob)

lemma upsertJob_fst_new:
  "currentJob (p_jobId patch) file = None \<Longrightarrow>
     fst (upsertJob t patch file) =
       mergePatch t \<lparr> jobId = p_jobId patch, title = None, owner = None, state = registered,
                      progress = None, detail = None,
                      createdAt = t, updatedAt = t, lastActivityAt = t \<rparr> patch"
  by (simp add: upsertJob_def Let_def baseRecord_currentJob)

text \<open>
  Claim C7 (partial-patch frame condition). When a \<^verbatim>\<open>jobId\<close> has a current record
  \<open>prev\<close>, an \<^verbatim>\<open>upsertJob\<close> with a patch makes the current record the one in which every
  field the patch supplies has the patch's value and every field it does not supply
  (\<^verbatim>\<open>title\<close>, \<^verbatim>\<open>owner\<close>, \<^verbatim>\<open>state\<close>, \<^verbatim>\<open>progress\<close>, \<^verbatim>\<open>detail\<close>, \<^verbatim>\<open>createdAt\<close>) has
  the value of \<open>prev\<close>; the two stamps \<^verbatim>\<open>updatedAt\<close> and \<^verbatim>\<open>lastActivityAt\<close> are set to
  the time of the call. The witness is the scenario of the specification: \<^verbatim>\<open>build-1\<close>
  reported running at 10 percent, then reported with progress 90 and no state.
\<close>

theorem upsertJob_frame:
  assumes "currentJob (p_jobId patch) file = Some prev"
  shows "currentJob (p_jobId patch) (snd (upsertJob t patch file)) =
           Some \<lparr> jobId = jobId prev,
                  title = (case p_title patch of None \<Rightarrow> title prev | Some x \<Rightarrow> Some x),
                  owner = (case p_owner patch of None \<Rightarrow> owner prev | Some x \<Rightarrow> Some x),
                  state = (case p_state patch of None \<Rightarrow> state prev | Some x \<Rightarrow> x),
                  progress = (case p_progress patch of None \<Rightarrow> progress prev | Some x \<Rightarrow> Some x),
                  detail = (case p_detail patch of None \<Rightarrow> detail prev | Some x \<Rightarrow> Some x),
                  createdAt = (case p_createdAt patch of None \<Rightarrow> createdAt prev | Some x \<Rightarrow> x),
                  updatedAt = t, lastActivityAt = t \<rparr>"
proof -
  from assms have k: "jobId prev = p_jobId patch" "p_jobId patch \<noteq> []"
    by (auto dest: currentJob_SomeD)
  have "fst (upsertJob t patch file) = mergePatch t prev patch"
    using assms by (simp add: upsertJob_def Let_def baseRecord_currentJob)
  with k show ?thesis
    by (simp add: currentJob_upsertJob mergePatch_def split: option.splits)
qed

theorem upsertJob_frame_witness:
  "currentJob (p_jobId build1_second) (snd (upsertJob 1000 build1_first None))
     = Some build1_after_first
   \<and> currentJob ''build-1''
       (snd (upsertJob 2000 build1_second (snd (upsertJob 1000 build1_first None))))
     = Some \<lparr> jobId = ''build-1'', title = None, owner = None, state = running,
              progress = Some 90, detail = None, createdAt = 1000, updatedAt = 2000,
              lastActivityAt = 2000 \<rparr>"
proof -
  have h: "currentJob (p_jobId build1_second) (snd (upsertJob 1000 build1_first None))
             = Some build1_after_first"
    by (simp add: currentJob_upsertJob upsertJob_fst_new mergePatch_def build1_first_def
          build1_second_def emptyPatch_def build1_after_first_def)
  from upsertJob_frame [OF h, of 2000] h show ?thesis
    by (simp add: build1_second_def emptyPatch_def build1_after_first_def)
qed

lemma upsertJob_keeps_createdAt:
  assumes "currentJob k file = Some r"
    and "p_jobId patch = k \<longrightarrow> p_createdAt patch = None"
  shows "\<exists>r'. currentJob k (snd (upsertJob t patch file)) = Some r' \<and> createdAt r' = createdAt r"
proof (cases "p_jobId patch = k")
  case True
  with assms have prev: "currentJob (p_jobId patch) file = Some r" by simp
  then have "p_jobId patch \<noteq> []" by (auto dest: currentJob_SomeD)
  with True assms prev show ?thesis
    by (simp add: currentJob_upsertJob upsertJob_fst_prev mergePatch_def)
next
  case False
  with assms show ?thesis by (auto simp: currentJob_upsertJob)
qed

lemma upsertAll_keeps_createdAt:
  assumes "currentJob k file = Some r"
    and "\<forall>c \<in> set calls. p_jobId (snd c) = k \<longrightarrow> p_createdAt (snd c) = None"
  shows "\<exists>r'. currentJob k (upsertAll calls file) = Some r' \<and> createdAt r' = createdAt r"
  using assms
proof (induction calls arbitrary: "file" r)
  case Nil
  then show ?case by simp
next
  case (Cons c calls)
  obtain t patch where c: "c = (t, patch)" by (cases c)
  with Cons.prems have "p_jobId patch = k \<longrightarrow> p_createdAt patch = None" by simp
  with Cons.prems(1) obtain r1 where
    r1: "currentJob k (snd (upsertJob t patch file)) = Some r1" "createdAt r1 = createdAt r"
    using upsertJob_keeps_createdAt by blast
  from Cons.prems(2) have rest: "\<forall>c \<in> set calls. p_jobId (snd c) = k \<longrightarrow> p_createdAt (snd c) = None"
    by simp
  from Cons.IH [OF r1(1) rest] r1(2) c show ?case by simp
qed

text \<open>
  Claim C6 (createdAt immutability). Starting from a log with no record of \<open>k\<close>, after
  a first \<^verbatim>\<open>upsertJob\<close> on \<open>k\<close> at time \<open>t1\<close> and any further calls, on \<open>k\<close> or on
  other jobs, whose patches on \<open>k\<close> do not carry \<^verbatim>\<open>createdAt\<close>, the current record of
  \<open>k\<close> has \<^verbatim>\<open>createdAt = t1\<close>. The record exists unless \<open>k\<close> is the empty string: a
  record with an empty \<^verbatim>\<open>jobId\<close> is written but never read back.
\<close>

theorem createdAt_is_first_call:
  assumes "currentJob k file = None"
    and "p_jobId p1 = k"
    and "p_createdAt p1 = None"
    and "\<forall>c \<in> set calls. p_jobId (snd c) = k \<longrightarrow> p_createdAt (snd c) = None"
  shows "case currentJob k (upsertAll ((t1, p1) # calls) file) of
           Some r \<Rightarrow> createdAt r = t1
         | None \<Rightarrow> k = []"
proof (cases "k = []")
  case True
  then show ?thesis by simp
next
  case False
  let ?f1 = "snd (upsertJob t1 p1 file)"
  let ?r1 = "fst (upsertJob t1 p1 file)"
  have cur: "currentJob k ?f1 = Some ?r1"
    using False assms(2) by (simp add: currentJob_upsertJob)
  have "createdAt ?r1 = t1"
    using assms(1,2,3) by (simp add: upsertJob_fst_new mergePatch_def)
  with upsertAll_keeps_createdAt [OF cur assms(4)] show ?thesis by auto
qed

theorem createdAt_is_first_call_witness:
  "currentJob ''build-1'' None = None \<and> p_jobId build1_first = ''build-1''
   \<and> p_createdAt build1_first = None
   \<and> p_jobId deploy_first = ''deploy-7'' \<and> p_createdAt build1_second = None
   \<and> map_option createdAt
        (currentJob ''build-1''
           (upsertAll [(1000, build1_first), (2000, deploy_first), (3000, build1_second)] None))
       = Some 1000"
proof -
  have h1: "currentJob ''build-1'' None = None" by simp
  have h3: "p_jobId build1_first = ''build-1''" by (simp add: build1_first_def emptyPatch_def)
  have h4: "p_createdAt build1_first = None" by (simp add: build1_first_def emptyPatch_def)
  have h5: "\<forall>c \<in> set [(2000, deploy_first), (3000, build1_second)].
              p_jobId (snd c) = ''build-1'' \<longrightarrow> p_createdAt (snd c) = None"
    by (simp add: build1_second_def deploy_first_def emptyPatch_def)
  have h6: "p_jobId deploy_first = ''deploy-7'' \<and> p_createdAt build1_second = None"
    by (simp add: build1_second_def deploy_first_def emptyPatch_def)
  from createdAt_is_first_call [OF h1 h3 h4 h5, of 1000]
  have "map_option createdAt
        (currentJob ''build-1''
           (upsertAll [(1000, build1_first), (2000, deploy_first), (3000, build1_second)] None))
       = Some 1000"
    by (simp split: option.splits)
  with h1 h3 h4 h6 show ?thesis by blast
qed

section \<open>The log tailer\<close>

lemma readBytes_inside:
  assumes "0 \<le> start" "0 \<le> n" "start + n \<le> int (length content)"
  shows "readBytes content start n = take (nat n) (drop (nat start) content)"
proof -
  have "length (take (nat n) (drop (nat start) content)) = nat n"
    using assms by (simp add: min_def) linarith
  then show ?thesis by (simp add: readBytes_def Let_def)
qed

text \<open>
  Claim C2 (log tailer read step), as amended. On a poll of an existing file whose path
  is the cursor's, with \<open>0 \<le> pos \<le> size\<close> and a cap that is not negative, the tailer
  reads exactly \<open>min cap (size - pos)\<close> bytes, and they are the last bytes of the file:
  the read starts at \<open>size - min cap (size - pos)\<close>. That offset is \<open>pos\<close> when the
  backlog \<open>size - pos\<close> is within the cap, and then the text is the whole backlog; when
  the backlog is larger, the bytes between \<open>pos\<close> and the start of the read are skipped.
  In both cases \<open>pos\<close> and \<open>lastSize\<close> become the size.
\<close>

theorem tailer_reads_tail:
  assumes "logPath ob = path"
    and "0 \<le> pos ob"
    and "pos ob \<le> int (length content)"
    and "0 \<le> mb"
  shows "pollOnce path content mb ob =
           Inr (ob\<lparr> pos := int (length content), lastSize := int (length content) \<rparr>,
                take (nat (min mb (int (length content) - pos ob)))
                  (drop (nat (int (length content) - min mb (int (length content) - pos ob)))
                     content))
         \<and> (int (length content) - pos ob \<le> mb \<longrightarrow>
              pollOnce path content mb ob =
                Inr (ob\<lparr> pos := int (length content), lastSize := int (length content) \<rparr>,
                     drop (nat (pos ob)) content))"
proof -
  define sz where "sz = int (length content)"
  define n where "n = min mb (sz - pos ob)"
  have rc: "resetCursor path sz mb ob = ob"
    using assms by (simp add: resetCursor_def sz_def)
  have nn: "bytesToRead sz mb ob = n"
    using assms by (simp add: bytesToRead_def Let_def max_def n_def sz_def)
  have n0: "\<not> n < 0" using assms by (simp add: n_def sz_def)
  have rs: "readStart sz mb ob = sz - n"
    using assms nn by (simp add: readStart_def max_def min_def n_def sz_def)
  have rb: "readBytes content (sz - n) n = take (nat n) (drop (nat (sz - n)) content)"
    using assms by (intro readBytes_inside) (auto simp: min_def n_def sz_def)
  have "pollOnce path content mb ob =
          Inr (ob\<lparr> pos := sz, lastSize := sz \<rparr>, take (nat n) (drop (nat (sz - n)) content))"
    unfolding pollOnce_def Let_def sz_def [symmetric] rc nn rs rb using n0 by simp
  then have main: "pollOnce path content mb ob =
           Inr (ob\<lparr> pos := int (length content), lastSize := int (length content) \<rparr>,
                take (nat (min mb (int (length content) - pos ob)))
                  (drop (nat (int (length content) - min mb (int (length content) - pos ob)))
                     content))"
    by (simp only: n_def sz_def)
  have "int (length content) - pos ob \<le> mb \<Longrightarrow>
          take (nat (min mb (int (length content) - pos ob)))
            (drop (nat (int (length content) - min mb (int (length content) - pos ob))) content)
          = drop (nat (pos ob)) content"
    using assms by (simp add: min_def)
  with main show ?thesis by simp
qed

theorem tailer_reads_tail_witness:
  "logPath cursorAtStart = ''gateway.log'' \<and> 0 \<le> pos cursorAtStart
   \<and> pos cursorAtStart \<le> int (length ''abcdefghij'') \<and> (0::int) \<le> 4
   \<and> pollOnce ''gateway.log'' ''abcdefghij'' 4 cursorAtStart =
       Inr (cursorAtStart\<lparr> pos := 10, lastSize := 10 \<rparr>, ''ghij'')"
proof -
  have h1: "logPath cursorAtStart = ''gateway.log''" by (simp add: cursorAtStart_def)
  have h2: "0 \<le> pos cursorAtStart" by (simp add: cursorAtStart_def)
  have h3: "pos cursorAtStart \<le> int (length ''abcdefghij'')" by (simp add: cursorAtStart_def)
  have h4: "(0::int) \<le> 4" by simp
  have p: "pos cursorAtStart = 0" by (simp add: cursorAtStart_def)
  from tailer_reads_tail [OF h1 h2 h3 h4, THEN conjunct1] h1 h2 h3 h4 show ?thesis
    by (simp add: p)
qed

text \<open>
  The claim as written says the read starts at \<open>pos\<close>. With ten bytes in the file, the
  cursor at 0 and a cap of 4, the four bytes read are the bytes 6 to 9.
\<close>

theorem tailer_read_start_counterexample:
  "logPath cursorAtStart = ''gateway.log''
   \<and> pos cursorAtStart \<le> int (length ''abcdefghij'')
   \<and> min 4 (int (length ''abcdefghij'') - pos cursorAtStart) = 4
   \<and> pollOnce ''gateway.log'' ''abcdefghij'' 4 cursorAtStart
        \<noteq> Inr (cursorAtStart\<lparr> pos := 10, lastSize := 10 \<rparr>,
               take 4 (drop (nat (pos cursorAtStart)) ''abcdefghij''))
   \<and> pollOnce ''gateway.log'' ''abcdefghij'' 4 cursorAtStart
        = Inr (cursorAtStart\<lparr> pos := 10, lastSize := 10 \<rparr>, ''ghij'')
   \<and> readStart 10 4 cursorAtStart = 6"
  by (simp add: cursorAtStart_def pollOnce_def resetCursor_def bytesToRead_def readStart_def
        readBytes_def Let_def)

section \<open>The reset tool\<close>

lemma readJobs_empty [simp]: "readJobs (Some []) = []" "readJobs None = []"
  by (simp_all add: readJobs_def latestPerJobId_def map_filter_def)

text \<open>
  Claim C8 (reset confirmation gate), as amended. When the plugin is enabled, a
  \<^verbatim>\<open>confirm\<close> that is not the boolean \<^verbatim>\<open>true\<close> is refused and the world (jobs, state,
  snapshot) is returned as it was; with \<^verbatim>\<open>confirm = true\<close> the tool reports success,
  \<^verbatim>\<open>readJobs\<close> returns no job afterwards and the state is the initial one. When the
  plugin is disabled the tool answers with the notice of the disabled plugin and
  changes nothing, whatever \<^verbatim>\<open>confirm\<close> is.
\<close>

theorem reset_confirm_gate:
  "(enabled \<and> confirm = PBool True \<longrightarrow>
        fst (progress_briefing_reset enabled confirm w) = Cleared
        \<and> readJobs (jobsLog (snd (progress_briefing_reset enabled confirm w))) = []
        \<and> st (snd (progress_briefing_reset enabled confirm w)) = initialState)
   \<and> (enabled \<and> confirm \<noteq> PBool True \<longrightarrow>
        progress_briefing_reset enabled confirm w = (Refused, w))
   \<and> (\<not> enabled \<longrightarrow> progress_briefing_reset enabled confirm w = (Disabled, w))"
  by (simp add: progress_briefing_reset_def saveState_def split: option.splits)

theorem reset_confirm_gate_witness:
  "PBool False \<noteq> PBool True
   \<and> progress_briefing_reset True (PBool False) worldWithJob = (Refused, worldWithJob)
   \<and> progress_briefing_reset True PUndefined worldWithJob = (Refused, worldWithJob)
   \<and> readJobs (jobsLog worldWithJob) = [build1_after_first]
   \<and> fst (progress_briefing_reset True (PBool True) worldWithJob) = Cleared
   \<and> readJobs (jobsLog (snd (progress_briefing_reset True (PBool True) worldWithJob))) = []"
proof -
  have a: "PBool False \<noteq> PBool True" "PUndefined \<noteq> PBool True" by simp_all
  have b: "readJobs (jobsLog worldWithJob) = [build1_after_first]"
    by (simp add: worldWithJob_def readJobs_def latestPerJobId_def map_filter_def
          build1_after_first_def)
  from reset_confirm_gate [of True "PBool False" worldWithJob]
       reset_confirm_gate [of True PUndefined worldWithJob]
       reset_confirm_gate [of True "PBool True" worldWithJob] a b
  show ?thesis by simp
qed

text \<open>
  The claim as written has no condition on the plugin: with \<^verbatim>\<open>cfg.enabled = false\<close>
  and \<^verbatim>\<open>confirm = true\<close> the stored job is still there after the call.
\<close>

theorem reset_disabled_counterexample:
  "readJobs (jobsLog worldWithJob) = [build1_after_first]
   \<and> progress_briefing_reset False (PBool True) worldWithJob = (Disabled, worldWithJob)
   \<and> readJobs (jobsLog (snd (progress_briefing_reset False (PBool True) worldWithJob)))
        = [build1_after_first]"
  by (simp add: progress_briefing_reset_def worldWithJob_def readJobs_def latestPerJobId_def
        map_filter_def build1_after_first_def)

section \<open>The briefing scheduler\<close>

text \<open>
  The header that the comparison ignores: a first line made of the tag and a non-empty
  timestamp. Two renderings that differ in the timestamp only are not a change.
\<close>

lemma stripHeader_header:
  assumes "h \<noteq> []" "CHR 0x0A \<notin> set h"
  shows "stripHeader (''[progress-briefing] '' @ h @ CHR 0x0A # body) = body"
proof -
  have nolf: "\<And>x. x \<in> set h \<Longrightarrow> x \<noteq> CHR 0x0A"
    using assms(2) by blast
  have tw: "takeWhile (\<lambda>c. c \<noteq> CHR 0x0A) (h @ CHR 0x0A # body) = h"
    using nolf by (simp add: takeWhile_append2)
  have dw: "dropWhile (\<lambda>c. c \<noteq> CHR 0x0A) (h @ CHR 0x0A # body) = CHR 0x0A # body"
    using nolf by (simp add: dropWhile_append2)
  show ?thesis
    using assms(1) tw dw by (simp add: stripHeader_def Let_def)
qed

lemma stripHeader_no_tag:
  "take (length ''[progress-briefing] '') x \<noteq> ''[progress-briefing] '' \<Longrightarrow> stripHeader x = x"
  by (simp add: stripHeader_def Let_def)

lemma tick_not_skipped:
  "(fst (tick cfg pats render sendOk env w) \<noteq> NotPosted) =
     shouldPost cfg (now env)
       (render (readJobs (jobsLog (observeFromGatewayLogs (observeCfg cfg) pats env w))))
       (st (observeFromGatewayLogs (observeCfg cfg) pats env w))"
  by (simp add: tick_def publish_def Let_def)

text \<open>
  Claim C4 (publish decision). A tick decides to publish (its outcome is not
  \<open>NotPosted\<close>: the briefing is built and handed to the transport, whether or not the
  send then succeeds) exactly when, in the state left by the detector of the same tick,
  the interval \<^verbatim>\<open>pollEveryMs\<close> has elapsed since \<^verbatim>\<open>lastBriefAt\<close> and the rendered text
  and the last published text differ after \<open>stripHeader\<close>, or an escalation is pending.
  The briefing is posted exactly when, in addition, the transport is not configured
  (the briefing then goes to the log only) or the send succeeds.

  The comparison ignores the header line. When the rendered text is the tag
  \<^verbatim>\<open>[progress-briefing] \<close>, a non-empty timestamp \<open>h1\<close> without line feed, a line feed
  and a body \<open>body1\<close>, and the last published text has the same shape with timestamp
  \<open>h2\<close> and body \<open>body2\<close>, the tick decides to publish exactly when the interval has
  elapsed and \<open>body1\<close> and \<open>body2\<close> differ, or an escalation is pending: \<open>h1\<close> and
  \<open>h2\<close> play no part. When the last published text does not start with the tag (such
  as the empty text before the first briefing), the body is compared with the whole of
  it.
\<close>

theorem publish_decision:
  "(fst (tick cfg pats render sendOk env w) \<noteq> NotPosted) =
     (let w1 = observeFromGatewayLogs (observeCfg cfg) pats env w;
          rollup = render (readJobs (jobsLog w1))
      in (now env - lastBriefAt (st w1) \<ge> (case pollEveryMs cfg of Some p \<Rightarrow> p | None \<Rightarrow> 30000)
          \<and> stripHeader rollup \<noteq> stripHeader (lastBriefContent (st w1)))
         \<or> pending (observeEscalation (st w1)))
   \<and> (\<exists>c v. fst (tick cfg pats render sendOk env w) = Posted c v) =
     (let w1 = observeFromGatewayLogs (observeCfg cfg) pats env w;
          rollup = render (readJobs (jobsLog w1))
      in ((now env - lastBriefAt (st w1) \<ge> (case pollEveryMs cfg of Some p \<Rightarrow> p | None \<Rightarrow> 30000)
           \<and> stripHeader rollup \<noteq> stripHeader (lastBriefContent (st w1)))
          \<or> pending (observeEscalation (st w1)))
         \<and> (sendOk \<or> \<not> (d_enabled cfg \<and> truthy (d_channelId cfg)
                               \<and> truthy (discordToken cfg))))
   \<and> (let w1 = observeFromGatewayLogs (observeCfg cfg) pats env w
      in render (readJobs (jobsLog w1)) = ''[progress-briefing] '' @ h1 @ CHR 0x0A # body1
         \<and> h1 \<noteq> [] \<and> CHR 0x0A \<notin> set h1
         \<and> lastBriefContent (st w1) = ''[progress-briefing] '' @ h2 @ CHR 0x0A # body2
         \<and> h2 \<noteq> [] \<and> CHR 0x0A \<notin> set h2
         \<longrightarrow> (fst (tick cfg pats render sendOk env w) \<noteq> NotPosted) =
               ((now env - lastBriefAt (st w1)
                   \<ge> (case pollEveryMs cfg of Some p \<Rightarrow> p | None \<Rightarrow> 30000)
                 \<and> body1 \<noteq> body2)
                \<or> pending (observeEscalation (st w1))))
   \<and> (let w1 = observeFromGatewayLogs (observeCfg cfg) pats env w
      in render (readJobs (jobsLog w1)) = ''[progress-briefing] '' @ h1 @ CHR 0x0A # body1
         \<and> h1 \<noteq> [] \<and> CHR 0x0A \<notin> set h1
         \<and> take (length ''[progress-briefing] '') (lastBriefContent (st w1))
               \<noteq> ''[progress-briefing] ''
         \<longrightarrow> (fst (tick cfg pats render sendOk env w) \<noteq> NotPosted) =
               ((now env - lastBriefAt (st w1)
                   \<ge> (case pollEveryMs cfg of Some p \<Rightarrow> p | None \<Rightarrow> 30000)
                 \<and> body1 \<noteq> lastBriefContent (st w1))
                \<or> pending (observeEscalation (st w1))))"
proof -
  let ?w1 = "observeFromGatewayLogs (observeCfg cfg) pats env w"
  have a: "(fst (tick cfg pats render sendOk env w) \<noteq> NotPosted) =
     (let w1 = observeFromGatewayLogs (observeCfg cfg) pats env w;
          rollup = render (readJobs (jobsLog w1))
      in (now env - lastBriefAt (st w1) \<ge> (case pollEveryMs cfg of Some p \<Rightarrow> p | None \<Rightarrow> 30000)
          \<and> stripHeader rollup \<noteq> stripHeader (lastBriefContent (st w1)))
         \<or> pending (observeEscalation (st w1)))"
    by (simp add: tick_def publish_def shouldPost_def timePassed_def contentChanged_def Let_def)
  have b: "(\<exists>c v. fst (tick cfg pats render sendOk env w) = Posted c v) =
     (let w1 = observeFromGatewayLogs (observeCfg cfg) pats env w;
          rollup = render (readJobs (jobsLog w1))
      in ((now env - lastBriefAt (st w1) \<ge> (case pollEveryMs cfg of Some p \<Rightarrow> p | None \<Rightarrow> 30000)
           \<and> stripHeader rollup \<noteq> stripHeader (lastBriefContent (st w1)))
          \<or> pending (observeEscalation (st w1)))
         \<and> (sendOk \<or> \<not> (d_enabled cfg \<and> truthy (d_channelId cfg)
                               \<and> truthy (discordToken cfg))))"
    by (auto simp: tick_def publish_def shouldPost_def timePassed_def contentChanged_def Let_def)
  have c: "render (readJobs (jobsLog ?w1)) = ''[progress-briefing] '' @ h1 @ CHR 0x0A # body1
         \<and> h1 \<noteq> [] \<and> CHR 0x0A \<notin> set h1
         \<and> lastBriefContent (st ?w1) = ''[progress-briefing] '' @ h2 @ CHR 0x0A # body2
         \<and> h2 \<noteq> [] \<and> CHR 0x0A \<notin> set h2
         \<longrightarrow> (fst (tick cfg pats render sendOk env w) \<noteq> NotPosted) =
               ((now env - lastBriefAt (st ?w1)
                   \<ge> (case pollEveryMs cfg of Some p \<Rightarrow> p | None \<Rightarrow> 30000)
                 \<and> body1 \<noteq> body2)
                \<or> pending (observeEscalation (st ?w1)))"
  proof
    assume h: "render (readJobs (jobsLog ?w1)) = ''[progress-briefing] '' @ h1 @ CHR 0x0A # body1
         \<and> h1 \<noteq> [] \<and> CHR 0x0A \<notin> set h1
         \<and> lastBriefContent (st ?w1) = ''[progress-briefing] '' @ h2 @ CHR 0x0A # body2
         \<and> h2 \<noteq> [] \<and> CHR 0x0A \<notin> set h2"
    then have s1: "stripHeader (render (readJobs (jobsLog ?w1))) = body1"
      and s2: "stripHeader (lastBriefContent (st ?w1)) = body2"
      using stripHeader_header [of h1 body1] stripHeader_header [of h2 body2] by simp_all
    show "(fst (tick cfg pats render sendOk env w) \<noteq> NotPosted) =
               ((now env - lastBriefAt (st ?w1)
                   \<ge> (case pollEveryMs cfg of Some p \<Rightarrow> p | None \<Rightarrow> 30000)
                 \<and> body1 \<noteq> body2)
                \<or> pending (observeEscalation (st ?w1)))"
      unfolding tick_not_skipped shouldPost_def timePassed_def contentChanged_def s1 s2 ..
  qed
  have d: "render (readJobs (jobsLog ?w1)) = ''[progress-briefing] '' @ h1 @ CHR 0x0A # body1
         \<and> h1 \<noteq> [] \<and> CHR 0x0A \<notin> set h1
         \<and> take (length ''[progress-briefing] '') (lastBriefContent (st ?w1))
               \<noteq> ''[progress-briefing] ''
         \<longrightarrow> (fst (tick cfg pats render sendOk env w) \<noteq> NotPosted) =
               ((now env - lastBriefAt (st ?w1)
                   \<ge> (case pollEveryMs cfg of Some p \<Rightarrow> p | None \<Rightarrow> 30000)
                 \<and> body1 \<noteq> lastBriefContent (st ?w1))
                \<or> pending (observeEscalation (st ?w1)))"
  proof
    assume h: "render (readJobs (jobsLog ?w1)) = ''[progress-briefing] '' @ h1 @ CHR 0x0A # body1
         \<and> h1 \<noteq> [] \<and> CHR 0x0A \<notin> set h1
         \<and> take (length ''[progress-briefing] '') (lastBriefContent (st ?w1))
               \<noteq> ''[progress-briefing] ''"
    then have s1: "stripHeader (render (readJobs (jobsLog ?w1))) = body1"
      using stripHeader_header [of h1 body1] by simp
    from h have s2: "stripHeader (lastBriefContent (st ?w1)) = lastBriefContent (st ?w1)"
      by (intro stripHeader_no_tag) simp
    show "(fst (tick cfg pats render sendOk env w) \<noteq> NotPosted) =
               ((now env - lastBriefAt (st ?w1)
                   \<ge> (case pollEveryMs cfg of Some p \<Rightarrow> p | None \<Rightarrow> 30000)
                 \<and> body1 \<noteq> lastBriefContent (st ?w1))
                \<or> pending (observeEscalation (st ?w1)))"
      unfolding tick_not_skipped shouldPost_def timePassed_def contentChanged_def s1 s2 ..
  qed
  from a b c d show ?thesis unfolding Let_def by blast
qed

text \<open>
  Claim C5 (latch consumption and failure atomicity). On a tick that attempts a publish:
  when the transport is configured and the send fails, the world after the tick is the
  world the detector left (pending flag, \<^verbatim>\<open>lastBriefAt\<close>, \<^verbatim>\<open>lastBriefContent\<close> and the
  snapshot untouched); otherwise the briefing is posted, the pending flag is cleared,
  \<^verbatim>\<open>lastBriefAt\<close> and \<^verbatim>\<open>lastBriefContent\<close> are the time and the text of this tick, and
  the state is saved.
\<close>

theorem publish_atomicity:
  assumes "wo = observeFromGatewayLogs (observeCfg cfg) pats env w"
    and "rollup = render (readJobs (jobsLog wo))"
    and "shouldPost cfg (now env) rollup (st wo)"
  shows "if d_enabled cfg \<and> truthy (d_channelId cfg) \<and> truthy (discordToken cfg) \<and> \<not> sendOk
         then tick cfg pats render sendOk env w = (PostFailed (briefContent cfg rollup (st wo)), wo)
         else fst (tick cfg pats render sendOk env w) =
                Posted (briefContent cfg rollup (st wo))
                  (d_enabled cfg \<and> truthy (d_channelId cfg) \<and> truthy (discordToken cfg))
              \<and> st (snd (tick cfg pats render sendOk env w)) =
                  (st wo)\<lparr> lastBriefAt := now env, lastBriefContent := rollup,
                           observeEscalation := (observeEscalation (st wo))\<lparr> pending := False \<rparr> \<rparr>
              \<and> jobsLog (snd (tick cfg pats render sendOk env w)) = jobsLog wo
              \<and> stateFile (snd (tick cfg pats render sendOk env w)) =
                  Some (st (snd (tick cfg pats render sendOk env w)))"
  using assms
  by (simp add: tick_def publish_def Let_def saveState_def)

lemma briefCfg0_via:
  "d_enabled briefCfg0 \<and> truthy (d_channelId briefCfg0) \<and> truthy (discordToken briefCfg0)"
  by (simp add: briefCfg0_def truthy_def)

lemma observe_disabled: "\<not> o_enabled oc \<Longrightarrow> observeFromGatewayLogs oc pats env w = w"
  by (simp add: observeFromGatewayLogs_def)

lemma observe_off: "observeFromGatewayLogs (observeCfg briefCfg0) pats env w = w"
  by (simp add: observe_disabled briefCfg0_def observeOff_def)

text \<open>
  With the interval long elapsed and no escalation pending, a rendering that differs from
  the last published text in the timestamp only (\<^verbatim>\<open>t\<close> against \<^verbatim>\<open>t0\<close>) is not
  published; one whose body differs is, and so is the first briefing.
\<close>

theorem publish_decision_witness:
  "pending (observeEscalation (st worldPending))
   \<and> fst (tick briefCfg0 patterns0 render0 True env0 worldPending) \<noteq> NotPosted
   \<and> fst (tick briefCfg0 patterns0 render0 True env0
             (worldPending\<lparr> st := initialState\<lparr> lastBriefAt := 90000 \<rparr> \<rparr>)) = NotPosted
   \<and> 30000 \<le> now env0 - lastBriefAt (st worldBriefed)
   \<and> \<not> pending (observeEscalation (st worldBriefed))
   \<and> render0 (readJobs (jobsLog worldBriefed))
       = ''[progress-briefing] '' @ ''t'' @ CHR 0x0A # ''(no activity)''
   \<and> lastBriefContent (st worldBriefed)
       = ''[progress-briefing] '' @ ''t0'' @ CHR 0x0A # ''(no activity)''
   \<and> render0 (readJobs (jobsLog worldBriefed)) \<noteq> lastBriefContent (st worldBriefed)
   \<and> fst (tick briefCfg0 patterns0 render0 True env0 worldBriefed) = NotPosted
   \<and> 30000 \<le> now env0 - lastBriefAt (st worldBriefedOther)
   \<and> \<not> pending (observeEscalation (st worldBriefedOther))
   \<and> lastBriefContent (st worldBriefedOther)
       = ''[progress-briefing] '' @ ''t0'' @ CHR 0x0A # ''- build-1: running''
   \<and> fst (tick briefCfg0 patterns0 render0 True env0 worldBriefedOther) \<noteq> NotPosted
   \<and> lastBriefContent (st worldFresh) = []
   \<and> fst (tick briefCfg0 patterns0 render0 True env0 worldFresh) \<noteq> NotPosted"
proof -
  have a: "pending (observeEscalation (st worldPending))"
    by (simp add: worldPending_def initialState_def)
  have b: "fst (tick briefCfg0 patterns0 render0 True env0 worldPending) \<noteq> NotPosted"
    using publish_decision [of briefCfg0 patterns0 render0 True env0 worldPending,
            THEN conjunct1] a
    by (simp add: observe_off Let_def)
  have c: "fst (tick briefCfg0 patterns0 render0 True env0
                  (worldPending\<lparr> st := initialState\<lparr> lastBriefAt := 90000 \<rparr> \<rparr>)) = NotPosted"
    using publish_decision [of briefCfg0 patterns0 render0 True env0
                               "worldPending\<lparr> st := initialState\<lparr> lastBriefAt := 90000 \<rparr> \<rparr>",
            THEN conjunct1]
    by (simp add: observe_off Let_def env0_def initialState_def)
       (simp add: briefCfg0_def render0_def worldPending_def)
  have poll: "(case pollEveryMs briefCfg0 of Some p \<Rightarrow> p | None \<Rightarrow> 30000) = 30000"
    by (simp add: briefCfg0_def)
  have t1: "30000 \<le> now env0 - lastBriefAt (st worldBriefed)"
    by (simp add: env0_def worldBriefed_def initialState_def)
  have p1: "\<not> pending (observeEscalation (st worldBriefed))"
    by (simp add: worldBriefed_def initialState_def)
  have r1: "render0 (readJobs (jobsLog worldBriefed))
              = ''[progress-briefing] '' @ ''t'' @ CHR 0x0A # ''(no activity)''"
    by (simp add: render0_def)
  have l1: "lastBriefContent (st worldBriefed)
              = ''[progress-briefing] '' @ ''t0'' @ CHR 0x0A # ''(no activity)''"
    by (simp add: worldBriefed_def initialState_def)
  have n1: "render0 (readJobs (jobsLog worldBriefed)) \<noteq> lastBriefContent (st worldBriefed)"
    by (simp add: r1 l1)
  have d: "fst (tick briefCfg0 patterns0 render0 True env0 worldBriefed) = NotPosted"
    using publish_decision [where cfg = briefCfg0 and pats = patterns0 and render = render0
            and sendOk = True and env = env0 and w = worldBriefed
            and ?h1.0 = "''t''" and ?h2.0 = "''t0''"
            and ?body1.0 = "''(no activity)''" and ?body2.0 = "''(no activity)''",
            THEN conjunct2, THEN conjunct2, THEN conjunct1]
          r1 l1 p1
    by (simp add: observe_off Let_def)
  have t2: "30000 \<le> now env0 - lastBriefAt (st worldBriefedOther)"
    by (simp add: env0_def worldBriefedOther_def initialState_def)
  have p2: "\<not> pending (observeEscalation (st worldBriefedOther))"
    by (simp add: worldBriefedOther_def initialState_def)
  have r2: "render0 (readJobs (jobsLog worldBriefedOther))
              = ''[progress-briefing] '' @ ''t'' @ CHR 0x0A # ''(no activity)''"
    by (simp add: render0_def)
  have l2: "lastBriefContent (st worldBriefedOther)
              = ''[progress-briefing] '' @ ''t0'' @ CHR 0x0A # ''- build-1: running''"
    by (simp add: worldBriefedOther_def initialState_def)
  have e: "fst (tick briefCfg0 patterns0 render0 True env0 worldBriefedOther) \<noteq> NotPosted"
    using publish_decision [where cfg = briefCfg0 and pats = patterns0 and render = render0
            and sendOk = True and env = env0 and w = worldBriefedOther
            and ?h1.0 = "''t''" and ?h2.0 = "''t0''"
            and ?body1.0 = "''(no activity)''" and ?body2.0 = "''- build-1: running''",
            THEN conjunct2, THEN conjunct2, THEN conjunct1]
          r2 l2 t2
    by (simp add: observe_off Let_def poll)
  have t3: "30000 \<le> now env0 - lastBriefAt (st worldFresh)"
    by (simp add: env0_def worldFresh_def initialState_def)
  have r3: "render0 (readJobs (jobsLog worldFresh))
              = ''[progress-briefing] '' @ ''t'' @ CHR 0x0A # ''(no activity)''"
    by (simp add: render0_def)
  have l3: "lastBriefContent (st worldFresh) = []"
    by (simp add: worldFresh_def initialState_def)
  have f: "fst (tick briefCfg0 patterns0 render0 True env0 worldFresh) \<noteq> NotPosted"
    using publish_decision [where cfg = briefCfg0 and pats = patterns0 and render = render0
            and sendOk = True and env = env0 and w = worldFresh
            and ?h1.0 = "''t''" and ?body1.0 = "''(no activity)''",
            THEN conjunct2, THEN conjunct2, THEN conjunct2]
          r3 l3 t3
    by (simp add: observe_off Let_def poll)
  from a b c t1 p1 r1 l1 n1 d t2 p2 l2 e l3 f show ?thesis by blast
qed

theorem publish_atomicity_witness:
  "shouldPost briefCfg0 (now env0) (render0 (readJobs (jobsLog worldPending))) (st worldPending)
   \<and> tick briefCfg0 patterns0 render0 False env0 worldPending =
       (PostFailed (briefContent briefCfg0 (render0 []) (st worldPending)), worldPending)
   \<and> pending (observeEscalation (st (snd (tick briefCfg0 patterns0 render0 True env0 worldPending))))
       = False
   \<and> lastBriefAt (st (snd (tick briefCfg0 patterns0 render0 True env0 worldPending))) = 100000
   \<and> lastBriefContent (st (snd (tick briefCfg0 patterns0 render0 True env0 worldPending)))
       = render0 []"
proof -
  have w1: "worldPending = observeFromGatewayLogs (observeCfg briefCfg0) patterns0 env0 worldPending"
    by (simp add: observe_off)
  have sp: "shouldPost briefCfg0 (now env0) (render0 (readJobs (jobsLog worldPending)))
              (st worldPending)"
    by (simp add: shouldPost_def worldPending_def initialState_def)
  have jl: "readJobs (jobsLog worldPending) = []" by (simp add: worldPending_def)
  note step = publish_atomicity [where wo = worldPending and cfg = briefCfg0
               and pats = patterns0 and env = env0 and w = worldPending and render = render0
               and rollup = "render0 (readJobs (jobsLog worldPending))", OF w1 refl sp]
  from step [of False] step [of True] briefCfg0_via sp jl
  show ?thesis by (simp add: env0_def)
qed

section \<open>The detector and the escalation state machine\<close>

lemma st_upsertW [simp]: "st (upsertW t p w) = st w"
  by (simp add: upsertW_def)

lemma st_saveState [simp]: "st (saveState w) = st w"
  by (simp add: saveState_def)

lemma jobsLog_saveState [simp]: "jobsLog (saveState w) = jobsLog w"
  by (simp add: saveState_def)

lemma st_perAgentJob [simp]: "st (perAgentJob t scope m y a w) = st w"
  by (simp add: perAgentJob_def Let_def)

lemma st_fold_perAgentJob [simp]: "st (fold (perAgentJob t scope m y) as w) = st w"
  by (induction as arbitrary: w) simp_all

lemma st_perAgentJobs [simp]: "st (perAgentJobs t scope pa y w) = st w"
  by (simp add: perAgentJobs_def Let_def)

lemma scanLines_Nil [simp]: "scanLines oc pats scope [] = emptyTally"
  by (simp add: scanLines_def)

lemma allZero_emptyTally [simp]: "allZero emptyTally"
  by (simp add: allZero_def emptyTally_def)

lemma splitLines_Nil [simp]: "splitLines [] = []"
  by (simp add: splitLines_def)

lemma tickTally_Nil [simp]: "tickTally oc pats [] = emptyTally"
  by (simp add: tickTally_def)

lemma pollOnce_Inr_keeps:
  assumes "pollOnce path content mb ob0 = Inr (ob, text)"
  shows "lastEscalateAt ob = lastEscalateAt ob0 \<and> counters ob = counters ob0
         \<and> lastEscalateReason ob = lastEscalateReason ob0"
  using assms by (auto simp: pollOnce_def Let_def resetCursor_def split: if_splits)

lemma pollOnce_Inl_keeps:
  assumes "pollOnce path content mb ob0 = Inl ob"
  shows "lastEscalateAt ob = lastEscalateAt ob0 \<and> counters ob = counters ob0
         \<and> lastEscalateReason ob = lastEscalateReason ob0"
  using assms by (auto simp: pollOnce_def Let_def resetCursor_def split: if_splits)

text \<open>A tick with a nonzero count: the file was there and was read.\<close>

lemma busy_tick_polled:
  assumes "\<not> allZero (tallyOf oc pats env w)"
  obtains content ob where "envLogFile env = Some content"
    and "pollOnce (envLogPath env) content (maxBytes oc) (observe (st w))
           = Inr (ob, polledText oc env w)"
proof (cases "envLogFile env")
  case None
  with assms show ?thesis by (simp add: tallyOf_def polledText_def)
next
  case (Some content)
  show ?thesis
  proof (cases "pollOnce (envLogPath env) content (maxBytes oc) (observe (st w))")
    case (Inl ob)
    with Some assms show ?thesis by (simp add: tallyOf_def polledText_def)
  next
    case (Inr p)
    obtain ob tx where p: "p = (ob, tx)" by (cases p)
    with Some Inr have "polledText oc env w = tx" by (simp add: polledText_def)
    with Some Inr p that show ?thesis by simp
  qed
qed

lemma observe_busy_st:
  assumes "o_enabled oc"
    and "envLogFile env = Some content"
    and "pollOnce (envLogPath env) content (maxBytes oc) (observe (st w)) = Inr (ob, tx)"
    and "\<not> allZero (tickTally oc pats tx)"
  shows "st (observeFromGatewayLogs oc pats env w) =
           escalate (o_escalate oc) (scopeOf oc) (now env) (tickTally oc pats tx)
             (clearObserveLast ((st w)\<lparr> observe := ob \<rparr>))"
  using assms by (simp add: observeFromGatewayLogs_def Let_def)

lemma fold_offender_ge: "snd acc \<le> snd (fold offenderStep es acc)"
proof (induction es arbitrary: acc)
  case Nil
  show ?case by simp
next
  case (Cons e es)
  have "snd acc \<le> snd (offenderStep e acc)" by (simp add: offenderStep_def)
  also have "\<dots> \<le> snd (fold offenderStep es (offenderStep e acc))" by (rule Cons.IH)
  finally show ?case by simp
qed

lemma fold_offender_ub: "e \<in> set es \<Longrightarrow> snd e \<le> snd (fold offenderStep es acc)"
proof (induction es arbitrary: acc)
  case Nil
  then show ?case by simp
next
  case (Cons x es)
  show ?case
  proof (cases "e = x")
    case True
    have "snd e \<le> snd (offenderStep x acc)" using True by (simp add: offenderStep_def)
    also have "\<dots> \<le> snd (fold offenderStep es (offenderStep x acc))" by (rule fold_offender_ge)
    finally show ?thesis by simp
  next
    case False
    with Cons.prems have "e \<in> set es" by simp
    then show ?thesis using Cons.IH by simp
  qed
qed

lemma fold_offender_mem: "fold offenderStep es acc = acc \<or> fold offenderStep es acc \<in> set es"
proof (induction es arbitrary: acc)
  case Nil
  show ?case by simp
next
  case (Cons x es)
  from Cons.IH [of "offenderStep x acc"] show ?case
    by (auto simp: offenderStep_def split: if_splits)
qed

lemma set_entries [simp]: "set (entries sc) = set sc"
  by (auto simp: entries_def)

lemma findOffender_ub: "(a, c) \<in> set sc \<Longrightarrow> c \<le> snd (findOffender sc)"
  using fold_offender_ub [of "(a, c)" "entries sc" "([], 0)"] by (simp add: findOffender_def)

lemma findOffender_mem: "0 < snd (findOffender sc) \<Longrightarrow> findOffender sc \<in> set sc"
  using fold_offender_mem [of "entries sc" "([], 0)"] by (auto simp: findOffender_def)

lemma getOr0_mem: "distinct (map fst sc) \<Longrightarrow> (a, c) \<in> set sc \<Longrightarrow> getOr0 sc a = c"
  by (simp add: getOr0_def)

lemma getOr0_pos_mem: "getOr0 sc a \<noteq> 0 \<Longrightarrow> (a, getOr0 sc a) \<in> set sc"
  by (auto simp: getOr0_def split: option.splits dest: map_of_SomeD)

lemma getOr0_le_offender:
  assumes "distinct (map fst sc)"
  shows "getOr0 sc a \<le> snd (findOffender sc)"
proof (cases "getOr0 sc a = 0")
  case True
  have "snd ([]::string, 0::int) \<le> snd (fold offenderStep (entries sc) ([], 0))"
    by (rule fold_offender_ge)
  with True show ?thesis by (simp add: findOffender_def)
next
  case False
  then have "(a, getOr0 sc a) \<in> set sc" by (rule getOr0_pos_mem)
  then show ?thesis by (rule findOffender_ub)
qed

lemma offender_threshold_iff:
  assumes "distinct (map fst sc)" and "0 < th"
  shows "(th \<le> snd (findOffender sc)) = (\<exists>a. th \<le> getOr0 sc a)"
proof
  assume le: "th \<le> snd (findOffender sc)"
  with assms(2) have "0 < snd (findOffender sc)" by simp
  then have "findOffender sc \<in> set sc" by (rule findOffender_mem)
  then have "(fst (findOffender sc), snd (findOffender sc)) \<in> set sc" by simp
  with assms(1) have "getOr0 sc (fst (findOffender sc)) = snd (findOffender sc)"
    by (rule getOr0_mem)
  with le have "th \<le> getOr0 sc (fst (findOffender sc))" by simp
  then show "\<exists>a. th \<le> getOr0 sc a" ..
next
  assume "\<exists>a. th \<le> getOr0 sc a"
  then obtain a where "th \<le> getOr0 sc a" by blast
  also have "getOr0 sc a \<le> snd (findOffender sc)" using assms(1) by (rule getOr0_le_offender)
  finally show "th \<le> snd (findOffender sc)" .
qed

lemma set_update_subset: "set (AList.update k v m) \<subseteq> insert (k, v) (set m)"
  by (induction m) auto

lemma getOr0_update: "getOr0 (AList.update k v m) b = (if b = k then v else getOr0 m b)"
  by (simp add: getOr0_def update_conv')

lemma agentsOK_getOr0: "agentsOK m \<Longrightarrow> 0 \<le> getOr0 m a"
  by (auto simp: agentsOK_def getOr0_def list_all_iff split: option.splits dest!: map_of_SomeD)

lemma agentsOK_getOr0_empty: "agentsOK m \<Longrightarrow> getOr0 m [] = 0"
  by (auto simp: agentsOK_def getOr0_def list_all_iff split: option.splits dest!: map_of_SomeD)

lemma getOr0_absent: "a \<notin> set (map fst m) \<Longrightarrow> getOr0 m a = 0"
  by (simp add: getOr0_def map_of_eq_None_iff [THEN iffD2])

lemma agentsOK_bump: "agentsOK m \<Longrightarrow> a \<noteq> [] \<Longrightarrow> agentsOK (bump m a)"
proof -
  assume ok: "agentsOK m" and a: "a \<noteq> []"
  have "0 \<le> getOr0 m a" using ok by (rule agentsOK_getOr0)
  then have "0 < getOr0 m a + 1" by simp
  with ok a set_update_subset [of a "getOr0 m a + 1" m] show ?thesis
    by (auto simp: agentsOK_def bump_def list_all_iff)
qed

lemma validCounters_update:
  "validCounters sc \<Longrightarrow> a \<noteq> [] \<Longrightarrow> validCounters (AList.update a v sc)"
  by (simp add: validCounters_def update_keys)

lemma validCounters_bumpN: "validCounters sc \<Longrightarrow> validCounters (bumpN a n sc)"
  by (simp add: bumpN_def validCounters_update)

lemma validCounters_bumpAgent: "validCounters sc \<Longrightarrow> validCounters (bumpAgent y a sc)"
  by (simp add: bumpAgent_def validCounters_bumpN)

lemma validCounters_fold_bumpAgent:
  "validCounters sc \<Longrightarrow> validCounters (fold (bumpAgent y) as sc)"
  by (induction as arbitrary: sc) (simp_all add: validCounters_bumpAgent)

lemma validCounters_accumulate: "validCounters sc \<Longrightarrow> validCounters (accumulate y sc)"
  by (simp add: accumulate_def validCounters_fold_bumpAgent)

lemma getOr0_bumpN:
  "0 \<le> n \<Longrightarrow> getOr0 (bumpN a n sc) b = (if b = a \<and> a \<noteq> [] then getOr0 sc b + n else getOr0 sc b)"
  by (auto simp: bumpN_def getOr0_update)

lemma getOr0_bumpAgent:
  assumes "tallyOK y"
  shows "getOr0 (bumpAgent y a sc) b =
           (if b = a \<and> a \<noteq> [] then getOr0 sc b + agentTotal y a else getOr0 sc b)"
proof -
  from assms have nn: "0 \<le> getOr0 (agents401 y) a" "0 \<le> getOr0 (agents405 y) a"
    "0 \<le> getOr0 (agents429 y) a" "0 \<le> getOr0 (agents5xx y) a"
    "0 \<le> getOr0 (agentsExecutorFailed y) a"
    by (simp_all add: tallyOK_def agentsOK_getOr0)
  then show ?thesis
    by (simp add: bumpAgent_def getOr0_bumpN agentTotal_def)
qed

lemma getOr0_fold_bumpAgent:
  assumes "tallyOK y" and "distinct as"
  shows "getOr0 (fold (bumpAgent y) as sc) b =
           (if b \<in> set as \<and> b \<noteq> [] then getOr0 sc b + agentTotal y b else getOr0 sc b)"
  using assms(2)
proof (induction as arbitrary: sc)
  case Nil
  show ?case by simp
next
  case (Cons a as)
  then have d: "distinct as" and na: "a \<notin> set as" by simp_all
  show ?case
    using Cons.IH [OF d, of "bumpAgent y a sc"] na
    by (auto simp: getOr0_bumpAgent [OF assms(1)])
qed

lemma distinct_keySet [simp]: "distinct (keySet ks)"
  by (simp add: keySet_def)

lemma set_keySet [simp]: "set (keySet ks) = set ks"
  by (simp add: keySet_def)

lemma agentTotal_absent:
  "b \<notin> set (escalationAgents y) \<Longrightarrow> agentTotal y b = 0"
  by (simp add: escalationAgents_def agentTotal_def getOr0_absent)

lemma agentTotal_empty: "tallyOK y \<Longrightarrow> agentTotal y [] = 0"
  by (simp add: tallyOK_def agentTotal_def agentsOK_getOr0_empty)

lemma getOr0_accumulate:
  assumes "tallyOK y"
  shows "getOr0 (accumulate y sc) b = getOr0 sc b + agentTotal y b"
proof -
  have "getOr0 (accumulate y sc) b =
          (if b \<in> set (escalationAgents y) \<and> b \<noteq> [] then getOr0 sc b + agentTotal y b
           else getOr0 sc b)"
    unfolding accumulate_def
    by (rule getOr0_fold_bumpAgent [OF assms]) (simp add: escalationAgents_def)
  then show ?thesis
    using agentTotal_absent [of b y] agentTotal_empty [OF assms] by auto
qed

lemma tallyOK_emptyTally [simp]: "tallyOK emptyTally"
  by (simp add: tallyOK_def emptyTally_def agentsOK_def)

lemma tallyOK_steps:
  "tallyOK y \<Longrightarrow> tallyOK (tally401 c a y)"
  "tallyOK y \<Longrightarrow> tallyOK (tally405 c a y)"
  "tallyOK y \<Longrightarrow> tallyOK (tally429 c a y)"
  "tallyOK y \<Longrightarrow> tallyOK (tally5xx c a y)"
  "tallyOK y \<Longrightarrow> tallyOK (tallyExecutorFailed c a y)"
  "tallyOK y \<Longrightarrow> tallyOK (tallyExecFailed c y)"
  "tallyOK y \<Longrightarrow> tallyOK (tallyPluginLoadFailed c y)"
  by (simp_all add: tally401_def tally405_def tally429_def tally5xx_def
        tallyExecutorFailed_def tallyExecFailed_def tallyPluginLoadFailed_def
        tallyOK_def agentsOK_bump)

lemma tallyOK_scanLine: "tallyOK y \<Longrightarrow> tallyOK (scanLine oc pats scope l y)"
  by (simp add: scanLine_def Let_def tallyOK_steps)

lemma tallyOK_fold_scanLine:
  "tallyOK y \<Longrightarrow> tallyOK (fold (scanLine oc pats scope) ls y)"
  by (induction ls arbitrary: y) (simp_all add: tallyOK_scanLine)

lemma tallyOK_tickTally [simp]: "tallyOK (tickTally oc pats tx)"
  by (simp add: tickTally_def scanLines_def tallyOK_fold_scanLine)

lemma tallyOK_tallyOf [simp]: "tallyOK (tallyOf oc pats env w)"
  by (simp add: tallyOf_def)

lemma escalate_fires:
  assumes "e_enabled esc"
    and "cum = accumulate y (counters (observe s) scope)"
    and "threshold esc \<le> snd (findOffender cum)"
    and "cooldownMs esc \<le> t - lastEscalateAt (observe s)"
  shows "escalate esc scope t y s =
     s\<lparr> observe := (observe s)
          \<lparr> lastEscalateAt := t,
            lastEscalateReason :=
              escalationReason (threshold esc) (fst (findOffender cum)) (snd (findOffender cum)),
            counters := (counters (observe s))
              (scope := (if fst (findOffender cum) \<noteq> []
                         then AList.update (fst (findOffender cum)) (threshold esc) cum
                         else cum)) \<rparr>,
        observeEscalation :=
          \<lparr> pending = True, forcedMention = mention esc,
            reason = escalationReason (threshold esc) (fst (findOffender cum))
                       (snd (findOffender cum)),
            setAt = t \<rparr> \<rparr>"
  using assms by (simp add: escalate_def Let_def split_beta)

lemma escalate_quiet:
  assumes "e_enabled esc"
    and "cum = accumulate y (counters (observe s) scope)"
    and "\<not> (threshold esc \<le> snd (findOffender cum)
            \<and> cooldownMs esc \<le> t - lastEscalateAt (observe s))"
  shows "escalate esc scope t y s =
     s\<lparr> observe := (observe s)\<lparr> counters := (counters (observe s))(scope := cum) \<rparr> \<rparr>"
proof -
  have "escalate esc scope t y s =
          (if threshold esc \<le> snd (findOffender cum)
              \<and> cooldownMs esc \<le> t - lastEscalateAt (observe s)
           then escalate esc scope t y s
           else s\<lparr> observe := (observe s)\<lparr> counters := (counters (observe s))(scope := cum) \<rparr> \<rparr>)"
    using assms(1,2) by (simp add: escalate_def Let_def split_beta)
  with assms(3) show ?thesis by (simp only: if_False)
qed

lemma offender_is_key:
  assumes "validCounters sc" and "0 < snd (findOffender sc)"
  shows "fst (findOffender sc) \<noteq> [] \<and> getOr0 sc (fst (findOffender sc)) = snd (findOffender sc)"
proof -
  from assms(2) have "findOffender sc \<in> set sc" by (rule findOffender_mem)
  then have m: "(fst (findOffender sc), snd (findOffender sc)) \<in> set sc" by simp
  then have "fst (findOffender sc) \<in> set (map fst sc)" by force
  moreover from assms(1) have "[] \<notin> set (map fst sc)" by (simp add: validCounters_def)
  ultimately have "fst (findOffender sc) \<noteq> []" by metis
  moreover from assms(1) m have "getOr0 sc (fst (findOffender sc)) = snd (findOffender sc)"
    by (simp add: validCounters_def getOr0_mem)
  ultimately show ?thesis by simp
qed

text \<open>
  Claim C1 (escalation firing transition), as amended. On a tick with observation and
  escalation enabled in which at least one count of the tick is nonzero, with a positive
  threshold, the stored counters of the scope a well-formed object (each agent once,
  no empty agent id), and no agent id, stored or attributed an error by this tick, that
  names a property of \<^verbatim>\<open>Object.prototype\<close>: the cumulative counter of every agent is its stored counter plus the errors
  this tick attributes to it; the escalation fires if and only if some agent's
  cumulative counter has reached the threshold and the cooldown has elapsed since
  \<^verbatim>\<open>lastEscalateAt\<close>. When it fires, the latch is pending with the configured mention
  and the reason naming the offender, \<^verbatim>\<open>setAt\<close> and \<^verbatim>\<open>lastEscalateAt\<close> are the time of
  the tick, the offender is an agent with the largest cumulative counter, its counter is
  exactly the threshold afterwards and every other counter keeps its cumulative value.
  When it does not fire, the latch and \<^verbatim>\<open>lastEscalateAt\<close> are unchanged and the counters
  are the cumulative ones.

  The last hypothesis keeps the statement to the ticks on which \<open>bumpN\<close> is the
  \<^verbatim>\<open>bumpN\<close> of the code. For an agent id such as \<^verbatim>\<open>constructor\<close> or \<^verbatim>\<open>toString\<close> the
  code reads the inherited property, stores a string under the id, and never fires for
  that agent, whatever the number of its errors; a counter stored that way by an earlier
  tick is not a number either, and is not a value of the counters here.
\<close>

theorem escalation_transition:
  assumes "o_enabled oc"
    and "e_enabled (o_escalate oc)"
    and "\<not> allZero (tallyOf oc pats env w)"
    and "0 < threshold (o_escalate oc)"
    and "validCounters (counters (observe (st w)) (scopeOf oc))"
    and "cum = accumulate (tallyOf oc pats env w) (counters (observe (st w)) (scopeOf oc))"
    and "s' = st (observeFromGatewayLogs oc pats env w)"
    and "offender = fst (findOffender cum)"
    and "noInheritedNames (map fst (counters (observe (st w)) (scopeOf oc)))"
    and "noInheritedNames (escalationAgents (tallyOf oc pats env w))"
  shows "(\<forall>a. getOr0 cum a =
              getOr0 (counters (observe (st w)) (scopeOf oc)) a
              + agentTotal (tallyOf oc pats env w) a)
       \<and> (if (\<exists>a. threshold (o_escalate oc) \<le> getOr0 cum a)
              \<and> cooldownMs (o_escalate oc) \<le> now env - lastEscalateAt (observe (st w))
           then observeEscalation s' =
                  \<lparr> pending = True, forcedMention = mention (o_escalate oc),
                    reason = escalationReason (threshold (o_escalate oc)) offender
                               (getOr0 cum offender),
                    setAt = now env \<rparr>
              \<and> lastEscalateAt (observe s') = now env
              \<and> offender \<noteq> []
              \<and> threshold (o_escalate oc) \<le> getOr0 cum offender
              \<and> (\<forall>a. getOr0 cum a \<le> getOr0 cum offender)
              \<and> (\<forall>a. getOr0 (counters (observe s') (scopeOf oc)) a =
                        (if a = offender then threshold (o_escalate oc) else getOr0 cum a))
           else observeEscalation s' = observeEscalation (st w)
              \<and> lastEscalateAt (observe s') = lastEscalateAt (observe (st w))
              \<and> counters (observe s') (scopeOf oc) = cum)"
    (is "_ \<and> ?body")
proof -
  let ?esc = "o_escalate oc"
  let ?y = "tallyOf oc pats env w"
  from assms(3) obtain content ob where
    fl: "envLogFile env = Some content" and
    poll: "pollOnce (envLogPath env) content (maxBytes oc) (observe (st w))
             = Inr (ob, polledText oc env w)"
    by (rule busy_tick_polled)
  from poll have keep: "lastEscalateAt ob = lastEscalateAt (observe (st w))"
    "counters ob = counters (observe (st w))"
    by (simp_all add: pollOnce_Inr_keeps)
  from assms(3) have busy: "\<not> allZero (tickTally oc pats (polledText oc env w))"
    by (simp add: tallyOf_def)
  have s': "s' = escalate ?esc (scopeOf oc) (now env) ?y
                   (clearObserveLast ((st w)\<lparr> observe := ob \<rparr>))"
    unfolding assms(7) tallyOf_def by (rule observe_busy_st [OF assms(1) fl poll busy])
  have vc: "validCounters cum"
    unfolding assms(6) using assms(5) by (rule validCounters_accumulate)
  then have dist: "distinct (map fst cum)" by (simp add: validCounters_def)
  have sum: "\<forall>a. getOr0 cum a =
               getOr0 (counters (observe (st w)) (scopeOf oc)) a + agentTotal ?y a"
    unfolding assms(6) by (simp add: getOr0_accumulate)
  have iff: "(threshold ?esc \<le> snd (findOffender cum)) = (\<exists>a. threshold ?esc \<le> getOr0 cum a)"
    using dist assms(4) by (rule offender_threshold_iff)
  have max: "\<forall>a. getOr0 cum a \<le> snd (findOffender cum)"
    using dist by (simp add: getOr0_le_offender)
  show ?thesis
  proof (cases "(\<exists>a. threshold ?esc \<le> getOr0 cum a)
                 \<and> cooldownMs ?esc \<le> now env - lastEscalateAt (observe (st w))")
    case True
    with iff have th: "threshold ?esc \<le> snd (findOffender cum)" by simp
    with assms(4) have "0 < snd (findOffender cum)" by simp
    with vc have key: "offender \<noteq> []" "getOr0 cum offender = snd (findOffender cum)"
      unfolding assms(8) by (simp_all add: offender_is_key)
    let ?s0 = "clearObserveLast ((st w)\<lparr> observe := ob \<rparr>)"
    have cum0: "cum = accumulate ?y (counters (observe ?s0) (scopeOf oc))"
      by (simp add: assms(6) clearObserveLast_def keep)
    have cool: "cooldownMs ?esc \<le> now env - lastEscalateAt (observe ?s0)"
      using True by (simp add: clearObserveLast_def keep)
    have fire: "s' = ?s0
        \<lparr> observe := (observe ?s0)
            \<lparr> lastEscalateAt := now env,
              lastEscalateReason :=
                escalationReason (threshold ?esc) (fst (findOffender cum)) (snd (findOffender cum)),
              counters := (counters (observe ?s0))
                (scopeOf oc := (if fst (findOffender cum) \<noteq> []
                                then AList.update (fst (findOffender cum)) (threshold ?esc) cum
                                else cum)) \<rparr>,
          observeEscalation :=
            \<lparr> pending = True, forcedMention = mention ?esc,
              reason = escalationReason (threshold ?esc) (fst (findOffender cum))
                         (snd (findOffender cum)),
              setAt = now env \<rparr> \<rparr>"
      unfolding s' by (rule escalate_fires [OF assms(2) cum0 th cool])
    have off: "fst (findOffender cum) = offender" by (simp add: assms(8))
    have a: "observeEscalation s' =
               \<lparr> pending = True, forcedMention = mention ?esc,
                 reason = escalationReason (threshold ?esc) offender (getOr0 cum offender),
                 setAt = now env \<rparr>"
      by (simp add: fire key(2) off)
    have b: "lastEscalateAt (observe s') = now env" by (simp add: fire)
    have c: "\<forall>a. getOr0 (counters (observe s') (scopeOf oc)) a =
                  (if a = offender then threshold ?esc else getOr0 cum a)"
      using key(1) by (simp add: fire off getOr0_update)
    have "threshold ?esc \<le> getOr0 cum offender" "\<forall>a. getOr0 cum a \<le> getOr0 cum offender"
      using th max by (simp_all add: key(2))
    with a b c key(1) have body: "?body" unfolding if_P [OF True] by simp
    show ?thesis by (rule conjI [OF sum body])
  next
    case False
    let ?s0 = "clearObserveLast ((st w)\<lparr> observe := ob \<rparr>)"
    have cum0: "cum = accumulate ?y (counters (observe ?s0) (scopeOf oc))"
      by (simp add: assms(6) clearObserveLast_def keep)
    from False iff have nf: "\<not> (threshold ?esc \<le> snd (findOffender cum)
                          \<and> cooldownMs ?esc \<le> now env - lastEscalateAt (observe ?s0))"
      by (simp add: clearObserveLast_def keep)
    have quiet: "s' = ?s0\<lparr> observe := (observe ?s0)
                          \<lparr> counters := (counters (observe ?s0))(scopeOf oc := cum) \<rparr> \<rparr>"
      unfolding s' by (rule escalate_quiet [OF assms(2) cum0 nf])
    have "observeEscalation s' = observeEscalation (st w)"
      "lastEscalateAt (observe s') = lastEscalateAt (observe (st w))"
      "counters (observe s') (scopeOf oc) = cum"
      by (simp_all add: quiet clearObserveLast_def keep)
    then have body: "?body" unfolding if_not_P [OF False] by simp
    show ?thesis by (rule conjI [OF sum body])
  qed
qed

theorem escalation_transition_witness:
  "o_enabled observeEsc \<and> e_enabled (o_escalate observeEsc)
   \<and> \<not> allZero (tallyOf observeEsc patterns0 envBurst worldFresh)
   \<and> 0 < threshold (o_escalate observeEsc)
   \<and> validCounters (counters (observe (st worldFresh)) (scopeOf observeEsc))
   \<and> noInheritedNames (map fst (counters (observe (st worldFresh)) (scopeOf observeEsc)))
   \<and> noInheritedNames (escalationAgents (tallyOf observeEsc patterns0 envBurst worldFresh))
   \<and> escalationAgents (tallyOf observeEsc patterns0 envBurst worldFresh) = [''pm'']
   \<and> observeEscalation (st (observeFromGatewayLogs observeEsc patterns0 envBurst worldFresh)) =
       \<lparr> pending = True, forcedMention = ''@here'',
         reason = ''error threshold hit: >=3 (offender=pm, cumulative=3)'', setAt = 1000000 \<rparr>
   \<and> lastEscalateAt (observe (st (observeFromGatewayLogs observeEsc patterns0 envBurst worldFresh)))
       = 1000000
   \<and> getOr0 (counters (observe (st (observeFromGatewayLogs observeEsc patterns0 envBurst
                                        worldFresh))) (scopeOf observeEsc)) ''pm'' = 3"
proof -
  let ?cum = "accumulate (tallyOf observeEsc patterns0 envBurst worldFresh)
                (counters (observe (st worldFresh)) (scopeOf observeEsc))"
  have h1: "o_enabled observeEsc" by code_simp
  have h2: "e_enabled (o_escalate observeEsc)" by code_simp
  have h3: "\<not> allZero (tallyOf observeEsc patterns0 envBurst worldFresh)" by code_simp
  have h4: "0 < threshold (o_escalate observeEsc)" by code_simp
  have h5: "validCounters (counters (observe (st worldFresh)) (scopeOf observeEsc))" by code_simp
  have h6: "noInheritedNames (map fst (counters (observe (st worldFresh)) (scopeOf observeEsc)))"
    by code_simp
  have h7: "noInheritedNames (escalationAgents (tallyOf observeEsc patterns0 envBurst worldFresh))"
    by code_simp
  have ag: "escalationAgents (tallyOf observeEsc patterns0 envBurst worldFresh) = [''pm'']"
    by code_simp
  note step = escalation_transition [OF h1 h2 h3 h4 h5 refl refl refl h6 h7, THEN conjunct2]
  have pm: "threshold (o_escalate observeEsc) \<le> getOr0 ?cum ''pm''" by code_simp
  have cool: "cooldownMs (o_escalate observeEsc)
                \<le> now envBurst - lastEscalateAt (observe (st worldFresh))" by code_simp
  from pm cool have cond: "(\<exists>a. threshold (o_escalate observeEsc) \<le> getOr0 ?cum a)
      \<and> cooldownMs (o_escalate observeEsc)
           \<le> now envBurst - lastEscalateAt (observe (st worldFresh))" by blast
  note fired = step [unfolded if_P [OF cond]]
  have e1: "mention (o_escalate observeEsc) = ''@here''" by code_simp
  have e2: "escalationReason (threshold (o_escalate observeEsc)) (fst (findOffender ?cum))
              (getOr0 ?cum (fst (findOffender ?cum)))
            = ''error threshold hit: >=3 (offender=pm, cumulative=3)''" by code_simp
  have e3: "now envBurst = 1000000" by code_simp
  have e4: "fst (findOffender ?cum) = ''pm''" by code_simp
  have e5: "threshold (o_escalate observeEsc) = 3" by code_simp
  have e6: "scopeOf observeEsc = gateway" by code_simp
  from fired have "observeEscalation (st (observeFromGatewayLogs observeEsc patterns0 envBurst worldFresh)) =
       \<lparr> pending = True, forcedMention = ''@here'',
         reason = ''error threshold hit: >=3 (offender=pm, cumulative=3)'', setAt = 1000000 \<rparr>"
    by (simp only: e1 e2 e3)
  moreover from fired have "lastEscalateAt (observe (st (observeFromGatewayLogs observeEsc patterns0 envBurst worldFresh)))
       = 1000000" by (simp only: e3)
  moreover have "getOr0 (counters (observe (st (observeFromGatewayLogs observeEsc patterns0 envBurst
                                        worldFresh))) (scopeOf observeEsc)) ''pm'' = 3"
  proof -
    from fired have "\<forall>a. getOr0 (counters (observe (st (observeFromGatewayLogs observeEsc
                           patterns0 envBurst worldFresh))) (scopeOf observeEsc)) a =
                        (if a = fst (findOffender ?cum) then threshold (o_escalate observeEsc)
                         else getOr0 ?cum a)"
      by (elim conjE)
    then have "getOr0 (counters (observe (st (observeFromGatewayLogs observeEsc
                           patterns0 envBurst worldFresh))) (scopeOf observeEsc)) ''pm'' =
                 (if ''pm'' = fst (findOffender ?cum) then threshold (o_escalate observeEsc)
                  else getOr0 ?cum ''pm'')" ..
    then show ?thesis by (simp only: e4 e5 if_True refl)
  qed
  ultimately show ?thesis using h1 h2 h3 h4 h5 h6 h7 ag by blast
qed

text \<open>
  The claim as written says the escalation fires on any tick on which a counter has
  reached the threshold and the cooldown has elapsed. A tick that reads no matching line
  returns before the escalation block: here the counter of \<^verbatim>\<open>pm\<close> is at the threshold
  and the cooldown has elapsed, and the latch stays clear.
\<close>

theorem quiet_tick_counterexample:
  "o_enabled observeEsc \<and> e_enabled (o_escalate observeEsc)
   \<and> envLogFile envQuiet = Some log401x3
   \<and> threshold (o_escalate observeEsc)
        \<le> getOr0 (counters (observe (st worldHot)) (scopeOf observeEsc)) ''pm''
   \<and> cooldownMs (o_escalate observeEsc) \<le> now envQuiet - lastEscalateAt (observe (st worldHot))
   \<and> \<not> pending (observeEscalation (st worldHot))
   \<and> \<not> pending (observeEscalation (st (observeFromGatewayLogs observeEsc patterns0 envQuiet worldHot)))
   \<and> lastEscalateAt (observe (st (observeFromGatewayLogs observeEsc patterns0 envQuiet worldHot)))
        = 1000000"
  by code_simp

lemma noAgents_steps:
  "noAgents y \<Longrightarrow> noAgents (tally401 c [] y)"
  "noAgents y \<Longrightarrow> noAgents (tally405 c [] y)"
  "noAgents y \<Longrightarrow> noAgents (tally429 c [] y)"
  "noAgents y \<Longrightarrow> noAgents (tally5xx c [] y)"
  "noAgents y \<Longrightarrow> noAgents (tallyExecutorFailed c [] y)"
  "noAgents y \<Longrightarrow> noAgents (tallyExecFailed c y)"
  "noAgents y \<Longrightarrow> noAgents (tallyPluginLoadFailed c y)"
  by (simp_all add: tally401_def tally405_def tally429_def tally5xx_def
        tallyExecutorFailed_def tallyExecFailed_def tallyPluginLoadFailed_def noAgents_def)

lemma noAgents_scanLine:
  assumes "\<not> matches oc pats scope l \<or> extractAgent pats l = []" and "noAgents y"
  shows "noAgents (scanLine oc pats scope l y)"
proof (cases "matches oc pats scope l")
  case False
  with assms(2) show ?thesis by (simp add: scanLine_def)
next
  case True
  with assms(1) have "extractAgent pats l = []" by simp
  with assms(2) show ?thesis by (simp add: scanLine_def Let_def noAgents_steps)
qed

lemma noAgents_fold_scanLine:
  assumes "list_all (\<lambda>l. \<not> matches oc pats scope l \<or> extractAgent pats l = []) ls"
    and "noAgents y"
  shows "noAgents (fold (scanLine oc pats scope) ls y)"
  using assms by (induction ls arbitrary: y) (simp_all add: noAgents_scanLine)

lemma noAgents_tallyOf:
  "tickUnattributed oc pats env w \<Longrightarrow> noAgents (tallyOf oc pats env w)"
  unfolding tickUnattributed_def tallyOf_def tickTally_def scanLines_def
  by (rule noAgents_fold_scanLine) (simp_all add: noAgents_def emptyTally_def)

lemma accumulate_noAgents: "noAgents y \<Longrightarrow> accumulate y sc = sc"
  by (simp add: accumulate_def escalationAgents_def noAgents_def keySet_def)

lemma offender_below:
  assumes "0 < th" and "\<forall>(a, c) \<in> set sc. c < th"
  shows "\<not> th \<le> snd (findOffender sc)"
proof -
  from fold_offender_mem [of "entries sc" "([], 0)"]
  have "findOffender sc = ([], 0) \<or> findOffender sc \<in> set sc"
    by (simp add: findOffender_def)
  then show ?thesis
  proof
    assume "findOffender sc = ([], 0)"
    with assms(1) show ?thesis by simp
  next
    assume "findOffender sc \<in> set sc"
    with assms(2) have "snd (findOffender sc) < th" by (auto simp: case_prod_beta)
    then show ?thesis by simp
  qed
qed

lemma unattributed_tick:
  assumes un: "tickUnattributed oc pats env w"
    and th: "0 < threshold (o_escalate oc)"
    and below: "\<forall>(a, c) \<in> set (counters (observe (st w)) (scopeOf oc)). c < threshold (o_escalate oc)"
  shows "counters (observe (st (observeFromGatewayLogs oc pats env w))) = counters (observe (st w))
       \<and> observeEscalation (st (observeFromGatewayLogs oc pats env w)) = observeEscalation (st w)
       \<and> lastEscalateAt (observe (st (observeFromGatewayLogs oc pats env w)))
           = lastEscalateAt (observe (st w))"
proof (cases "o_enabled oc")
  case False
  then show ?thesis by (simp add: observeFromGatewayLogs_def)
next
  case en: True
  show ?thesis
  proof (cases "envLogFile env")
    case None
    with en show ?thesis by (simp add: observeFromGatewayLogs_def Let_def)
  next
    case (Some content)
    show ?thesis
    proof (cases "pollOnce (envLogPath env) content (maxBytes oc) (observe (st w))")
      case (Inl ob)
      with en Some pollOnce_Inl_keeps [OF Inl] show ?thesis
        by (simp add: observeFromGatewayLogs_def Let_def)
    next
      case (Inr p)
      obtain ob tx where p: "p = (ob, tx)" by (cases p)
      with Inr have poll: "pollOnce (envLogPath env) content (maxBytes oc) (observe (st w))
                             = Inr (ob, tx)" by simp
      from poll have keep: "lastEscalateAt ob = lastEscalateAt (observe (st w))"
        "counters ob = counters (observe (st w))"
        by (simp_all add: pollOnce_Inr_keeps)
      from Some poll have tx: "polledText oc env w = tx" by (simp add: polledText_def)
      show ?thesis
      proof (cases "allZero (tickTally oc pats tx)")
        case True
        with en Some poll keep show ?thesis
          by (simp add: observeFromGatewayLogs_def Let_def clearObserveLast_def)
      next
        case False
        let ?s0 = "clearObserveLast ((st w)\<lparr> observe := ob \<rparr>)"
        let ?y = "tickTally oc pats tx"
        have s': "st (observeFromGatewayLogs oc pats env w) =
                    escalate (o_escalate oc) (scopeOf oc) (now env) ?y ?s0"
          by (rule observe_busy_st [OF en Some poll False])
        have na: "noAgents ?y" using noAgents_tallyOf [OF un] by (simp add: tallyOf_def tx)
        show ?thesis
        proof (cases "e_enabled (o_escalate oc)")
          case False
          then have "escalate (o_escalate oc) (scopeOf oc) (now env) ?y ?s0 = ?s0"
            by (simp add: escalate_def)
          with s' keep show ?thesis by (simp add: clearObserveLast_def)
        next
          case True
          have cum: "counters (observe (st w)) (scopeOf oc)
                       = accumulate ?y (counters (observe ?s0) (scopeOf oc))"
            by (simp add: accumulate_noAgents [OF na] clearObserveLast_def keep)
          have nf: "\<not> (threshold (o_escalate oc)
                          \<le> snd (findOffender (counters (observe (st w)) (scopeOf oc)))
                        \<and> cooldownMs (o_escalate oc) \<le> now env - lastEscalateAt (observe ?s0))"
            using offender_below [OF th below] by simp
          have "escalate (o_escalate oc) (scopeOf oc) (now env) ?y ?s0 =
                  ?s0\<lparr> observe := (observe ?s0)
                         \<lparr> counters := (counters (observe ?s0))
                             (scopeOf oc := counters (observe (st w)) (scopeOf oc)) \<rparr> \<rparr>"
            by (rule escalate_quiet [OF True cum nf])
          with s' keep show ?thesis by (simp add: clearObserveLast_def)
        qed
      qed
    qed
  qed
qed

text \<open>
  Claim C10 (only attributed errors can escalate), as amended. With a positive threshold
  and every stored counter of the scope below it (as in a fresh state), any run of ticks
  in which no matching line carries an agent identity leaves the counters, the latch and
  \<^verbatim>\<open>lastEscalateAt\<close> as they were: nothing is added to a counter and the escalation
  never fires, however many lines the ticks read.
\<close>

theorem unattributed_never_escalates:
  assumes "0 < threshold (o_escalate oc)"
    and "\<forall>(a, c) \<in> set (counters (observe (st w)) (scopeOf oc)). c < threshold (o_escalate oc)"
    and "unattributedRun oc pats envs w"
  shows "counters (observe (st (observeTicks oc pats envs w))) = counters (observe (st w))
       \<and> observeEscalation (st (observeTicks oc pats envs w)) = observeEscalation (st w)
       \<and> lastEscalateAt (observe (st (observeTicks oc pats envs w)))
           = lastEscalateAt (observe (st w))"
  using assms(2,3)
proof (induction envs arbitrary: w)
  case Nil
  show ?case by simp
next
  case (Cons env envs)
  let ?w1 = "observeFromGatewayLogs oc pats env w"
  from Cons.prems(2) have un: "tickUnattributed oc pats env w"
    and rest: "unattributedRun oc pats envs ?w1" by simp_all
  note one = unattributed_tick [OF un assms(1) Cons.prems(1)]
  from one Cons.prems(1)
  have below: "\<forall>(a, c) \<in> set (counters (observe (st ?w1)) (scopeOf oc)). c < threshold (o_escalate oc)"
    by simp
  from Cons.IH [OF below rest] one show ?case by simp
qed

theorem unattributed_never_escalates_witness:
  "0 < threshold (o_escalate observeEsc)
   \<and> unattributedRun observeEsc patterns0 [envUnattributed1, envUnattributed2] worldFresh
   \<and> count401 (tallyOf observeEsc patterns0 envUnattributed1 worldFresh) = 4
   \<and> observeEscalation
        (st (observeTicks observeEsc patterns0 [envUnattributed1, envUnattributed2] worldFresh))
       = observeEscalation (st worldFresh)
   \<and> counters
        (observe (st (observeTicks observeEsc patterns0 [envUnattributed1, envUnattributed2]
                        worldFresh))) gateway = []"
proof -
  have h1: "0 < threshold (o_escalate observeEsc)" by code_simp
  have h2: "\<forall>(a, c) \<in> set (counters (observe (st worldFresh)) (scopeOf observeEsc)).
              c < threshold (o_escalate observeEsc)"
    by (simp add: worldFresh_def initialState_def)
  have h3: "unattributedRun observeEsc patterns0 [envUnattributed1, envUnattributed2] worldFresh"
    by code_simp
  have c: "count401 (tallyOf observeEsc patterns0 envUnattributed1 worldFresh) = 4" by code_simp
  have z: "counters (observe (st worldFresh)) gateway = []" by code_simp
  from unattributed_never_escalates [OF h1 h2 h3] h1 h3 c z show ?thesis by simp
qed

text \<open>
  The claim as written has no condition on the threshold. With a threshold of 0 the
  test \<^verbatim>\<open>offenderCount >= threshold\<close> holds with no counter at all, and one tick of
  unattributed lines sets the latch.
\<close>

theorem unattributed_threshold0_counterexample:
  "unattributedRun observeEsc0 patterns0 [envUnattributed1] worldFresh
   \<and> \<not> pending (observeEscalation (st worldFresh))
   \<and> counters (observe (st worldFresh)) gateway = []
   \<and> pending (observeEscalation (st (observeTicks observeEsc0 patterns0 [envUnattributed1] worldFresh)))"
  by code_simp

section \<open>The health job written by the detector\<close>

lemma state_upsertJob: "p_state patch = Some x \<Longrightarrow> state (fst (upsertJob t patch f)) = x"
  by (simp add: upsertJob_def Let_def mergePatch_def)

lemma currentJob_upsertW_state:
  assumes "p_jobId patch \<noteq> []" and "p_state patch = Some x"
  shows "map_option state (currentJob (p_jobId patch) (jobsLog (upsertW t patch w))) = Some x"
  using assms by (simp add: upsertW_def currentJob_upsertJob state_upsertJob)

lemma healthPatch_fields [simp]:
  "p_jobId (healthPatch k ttl x d) = k" "p_state (healthPatch k ttl x d) = Some x"
  by (simp_all add: healthPatch_def emptyPatch_def)

lemma baseJobId_nonempty [simp]: "baseJobId scope \<noteq> []"
  by (simp add: baseJobId_def)

text \<open>
  What the detector writes: a \<^verbatim>\<open>waiting\<close> record when the log file is missing, a
  \<^verbatim>\<open>blocked\<close> record when a count of the tick is nonzero, and nothing at all (neither a
  job record nor a snapshot of the state) when the file is there and every count is zero.
\<close>

lemma observe_missing_file_waiting:
  assumes "o_enabled oc" and "envLogFile env = None"
  shows "map_option state
           (currentJob (baseJobId (scopeOf oc)) (jobsLog (observeFromGatewayLogs oc pats env w)))
         = Some waiting"
proof -
  let ?p = "healthPatch (baseJobId (scopeOf oc)) (baseTitle (scopeOf oc)) waiting
              (''gateway log not found: '' @ envLogPath env)"
  have "observeFromGatewayLogs oc pats env w = upsertW (now env) ?p w"
    using assms by (simp add: observeFromGatewayLogs_def Let_def)
  moreover have "map_option state (currentJob (p_jobId ?p) (jobsLog (upsertW (now env) ?p w)))
                   = Some waiting"
    by (rule currentJob_upsertW_state) simp_all
  ultimately show ?thesis by simp
qed

lemma stateStr_busy: "\<not> allZero y \<Longrightarrow> stateStr y = blocked"
  by (auto simp: allZero_def stateStr_def)

lemma observe_busy_blocked:
  assumes "o_enabled oc" and "\<not> allZero (tallyOf oc pats env w)"
  shows "map_option state
           (currentJob (baseJobId (scopeOf oc)) (jobsLog (observeFromGatewayLogs oc pats env w)))
         = Some blocked"
proof -
  let ?y = "tallyOf oc pats env w"
  from assms(2) obtain content ob where
    fl: "envLogFile env = Some content" and
    poll: "pollOnce (envLogPath env) content (maxBytes oc) (observe (st w))
             = Inr (ob, polledText oc env w)"
    by (rule busy_tick_polled)
  let ?p = "healthPatch (baseJobId (scopeOf oc)) (baseTitle (scopeOf oc)) (stateStr ?y)
              (''Detected '' @ scopeName (scopeOf oc) @ '' errors in gateway logs: ''
               @ join '', '' (detailParts ?y))"
  from assms(2) have busy: "\<not> allZero (tickTally oc pats (polledText oc env w))"
    by (simp add: tallyOf_def)
  obtain w3 where "observeFromGatewayLogs oc pats env w = saveState (upsertW (now env) ?p w3)"
    using assms(1) fl poll busy
    by (simp add: observeFromGatewayLogs_def Let_def tallyOf_def)
  moreover have "map_option state (currentJob (p_jobId ?p) (jobsLog (upsertW (now env) ?p w3)))
                   = Some (stateStr ?y)"
    by (rule currentJob_upsertW_state) simp_all
  ultimately show ?thesis using stateStr_busy [OF assms(2)] by simp
qed

lemma observe_quiet_writes_nothing:
  assumes "envLogFile env = Some content"
    and "pollOnce (envLogPath env) content (maxBytes oc) (observe (st w)) = Inr (ob, tx)"
    and "allZero (tickTally oc pats tx)"
  shows "jobsLog (observeFromGatewayLogs oc pats env w) = jobsLog w
       \<and> stateFile (observeFromGatewayLogs oc pats env w) = stateFile w"
  using assms by (simp add: observeFromGatewayLogs_def Let_def)

text \<open>
  Claim C3 (health job state after each detector tick), on the code. The claim says that
  a tick on an existing file with all counts zero leaves the scope's health job
  \<^verbatim>\<open>running\<close>, and \<^verbatim>\<open>stateStr\<close> would indeed be \<^verbatim>\<open>running\<close> there; the function
  returns before it (lines 573 to 582), so \<^verbatim>\<open>stateStr\<close> is only ever computed when it is
  \<^verbatim>\<open>blocked\<close>. After a tick that found three errors the job is \<^verbatim>\<open>blocked\<close>; on the
  next tick the log has grown by a harmless line, every count is zero, the job log is
  not written and the job still reads \<^verbatim>\<open>blocked\<close>. On a fresh store a tick on a
  harmless log writes no health job at all.
\<close>

theorem health_job_stays_blocked:
  "envLogFile envCalm = Some (log401x3 @ ''all good'' @ [CHR 0x0A])
   \<and> map_option state (currentJob ''gateway:health'' (jobsLog worldAfterBurst)) = Some blocked
   \<and> allZero (tallyOf observeEsc patterns0 envCalm worldAfterBurst)
   \<and> stateStr (tallyOf observeEsc patterns0 envCalm worldAfterBurst) = running
   \<and> jobsLog (observeFromGatewayLogs observeEsc patterns0 envCalm worldAfterBurst)
        = jobsLog worldAfterBurst
   \<and> map_option state
        (currentJob ''gateway:health''
           (jobsLog (observeFromGatewayLogs observeEsc patterns0 envCalm worldAfterBurst)))
        = Some blocked
   \<and> currentJob ''gateway:health''
        (jobsLog (observeFromGatewayLogs observeEsc patterns0 envHarmless worldFresh)) = None"
  by code_simp

theorem health_job_stays_blocked_witness:
  "map_option state
     (currentJob ''gateway:health''
        (jobsLog (observeFromGatewayLogs observeEsc patterns0 envCalm worldAfterBurst)))
   \<noteq> Some running"
proof -
  from health_job_stays_blocked
  have eq: "map_option state
          (currentJob ''gateway:health''
             (jobsLog (observeFromGatewayLogs observeEsc patterns0 envCalm worldAfterBurst)))
        = Some blocked"
    by (elim conjE)
  show ?thesis unfolding eq by simp
qed

end
